theory Spec2Isabelle
  imports Complex_Main "HOL-Library.Sublist"
begin

section \<open>JavaScript values used by the change-ledger engine\<close>

text \<open>
  The engine is TypeScript (\<^verbatim>\<open>services/backendClient.ts\<close>, \<^verbatim>\<open>utils/artifacts.ts\<close>).
  Conventions of the embedding:
  \<^item> a JavaScript \<^verbatim>\<open>number\<close> that carries a measurement (score, ratio, coordinate) is a
    \<^typ>\<open>real\<close>; \<^verbatim>\<open>NaN\<close> and the infinities are not values of the model, and arithmetic is
    exact except for the product behind the coverage percentage, which is rounded as a double
    (\<open>doubleProduct\<close>); array indices, frame indices and pixel counts are \<^typ>\<open>nat\<close>;
  \<^item> an optional field (\<^verbatim>\<open>x?: T\<close>, \<^verbatim>\<open>T | null\<close>) is a \<^typ>\<open>'a option\<close>;
  \<^item> a string is a \<^typ>\<open>string\<close> holding the UTF-8 bytes of its text, so the non-ASCII
    characters of the source's templates are byte sequences; a JavaScript string may also
    hold an unpaired surrogate (U+D800 to U+DFFF), which is kept as its three bytes
    \<open>ED A0..BF 80..BF\<close>, a form no character of well-formed text has (a surrogate pair is
    the four bytes of its character);
  \<^item> a \<^verbatim>\<open>throw\<close> is the \<open>Inl\<close> branch of a sum.
\<close>

subsection \<open>Nullish and falsy defaults\<close>

definition nullish :: "'a option \<Rightarrow> 'a \<Rightarrow> 'a" where
  \<comment> \<open>\<^verbatim>\<open>x ?? d\<close>\<close>
  "nullish x d = (case x of None \<Rightarrow> d | Some v \<Rightarrow> v)"

definition strOr :: "string option \<Rightarrow> string \<Rightarrow> string" where
  \<comment> \<open>\<^verbatim>\<open>s || d\<close> on an optional string: \<^verbatim>\<open>undefined\<close> and the empty string are falsy\<close>
  "strOr s d = (case s of None \<Rightarrow> d | Some v \<Rightarrow> if v = [] then d else v)"

definition numOr :: "real option \<Rightarrow> real \<Rightarrow> real" where
  \<comment> \<open>\<^verbatim>\<open>x || d\<close> on an optional number: \<^verbatim>\<open>undefined\<close> and \<open>0\<close> are falsy\<close>
  "numOr x d = (case x of None \<Rightarrow> d | Some v \<Rightarrow> if v = 0 then d else v)"

subsection \<open>Numbers to text\<close>

definition digitChar :: "nat \<Rightarrow> char" where
  "digitChar d = ''0123456789'' ! d"

fun showNat :: "nat \<Rightarrow> string" where
  \<comment> \<open>\<^verbatim>\<open>`${n}`\<close> for a non-negative integer\<close>
  "showNat n = (if n < 10 then [digitChar n] else showNat (n div 10) @ [digitChar (n mod 10)])"

declare showNat.simps [simp del]

definition roundHalfUp :: "real \<Rightarrow> int" where
  \<comment> \<open>\<^verbatim>\<open>Math.round\<close>: the nearest integer, a tie going up\<close>
  "roundHalfUp x = \<lfloor>x + 1 / 2\<rfloor>"

definition fixedUnits :: "nat \<Rightarrow> real \<Rightarrow> nat" where
  \<comment> \<open>the integer \<open>n\<close> of \<^verbatim>\<open>Number.prototype.toFixed\<close>: \<open>n / 10^d\<close> is nearest to \<open>|x|\<close>,
      the larger \<open>n\<close> on a tie\<close>
  "fixedUnits d x = nat \<lfloor>\<bar>x\<bar> * 10 ^ d + 1 / 2\<rfloor>"

definition padZeros :: "nat \<Rightarrow> string \<Rightarrow> string" where
  "padZeros d s = replicate (d - length s) (CHR ''0'') @ s"

definition toFixed :: "nat \<Rightarrow> real \<Rightarrow> string" where
  \<comment> \<open>\<^verbatim>\<open>x.toFixed(d)\<close> for \<open>|x| < 10^21\<close>\<close>
  "toFixed d x =
     (let n = fixedUnits d x in
      (if x < 0 then ''-'' else '''') @ showNat (n div 10 ^ d) @
      (if d = 0 then '''' else ''.'' @ padZeros d (showNat (n mod 10 ^ d))))"

definition stripZeros :: "string \<Rightarrow> string" where
  "stripZeros s = rev (dropWhile (\<lambda>c. c = CHR ''0'') (rev s))"

definition showScaled :: "nat \<Rightarrow> int \<Rightarrow> string" where
  \<comment> \<open>\<^verbatim>\<open>`${v}`\<close> for the number \<open>v = k / 10^d\<close> with \<open>d \<le> 2\<close> and \<open>|v| < 10^21\<close>: no trailing
      zeros, no sign on zero\<close>
  "showScaled d k =
     (let n = nat \<bar>k\<bar>; frac = stripZeros (padZeros d (showNat (n mod 10 ^ d))) in
      (if k < 0 then ''-'' else '''') @ showNat (n div 10 ^ d) @
      (if frac = [] then '''' else ''.'' @ frac))"

subsection \<open>The double product\<close>

text \<open>
  Where a product is rounded to decimals before a threshold is applied to it, the rounding of
  the product itself decides the outcome, so that product is the IEEE 754 one: the exact
  product rounded to the nearest double, a tie going to the even significand. \<open>ulpOf x\<close> is
  the spacing of the doubles around \<open>x > 0\<close>, a power of two between \<open>2^-1074\<close> (the
  subnormals) and \<open>2^971\<close>; magnitudes of \<open>2^1024\<close> and more, which overflow, are
  outside the model.
\<close>

fun ulpDown :: "nat \<Rightarrow> real \<Rightarrow> real \<Rightarrow> real" where
  "ulpDown 0 u x = u"
| "ulpDown (Suc n) u x = (if x / u < 2 ^ 52 then ulpDown n (u / 2) x else u)"

fun ulpUp :: "nat \<Rightarrow> real \<Rightarrow> real \<Rightarrow> real" where
  "ulpUp 0 u x = u"
| "ulpUp (Suc n) u x = (if 2 ^ 53 \<le> x / u then ulpUp n (u * 2) x else u)"

definition ulpOf :: "real \<Rightarrow> real" where
  "ulpOf x = (if 2 ^ 53 \<le> x then ulpUp 971 1 x else ulpDown 1074 1 x)"

definition roundHalfEven :: "real \<Rightarrow> int" where
  "roundHalfEven y =
     (let m = \<lfloor>y\<rfloor>; r = y - of_int m in
      if r < 1 / 2 then m else if 1 / 2 < r then m + 1 else if even m then m else m + 1)"

definition toDouble :: "real \<Rightarrow> real" where
  \<comment> \<open>the double nearest to \<open>x\<close>: what a decimal literal or an exact result becomes\<close>
  "toDouble x =
     (if x = 0 then 0
      else (let a = \<bar>x\<bar>; u = ulpOf a; r = of_int (roundHalfEven (a / u)) * u in
            if x < 0 then - r else r))"

definition doubleProduct :: "real \<Rightarrow> real \<Rightarrow> real" where
  \<comment> \<open>\<^verbatim>\<open>x * y\<close> on doubles\<close>
  "doubleProduct x y = toDouble (x * y)"

subsection \<open>Text\<close>

definition toLowerChar :: "char \<Rightarrow> char" where
  "toLowerChar c =
     (let n = (of_char c :: nat) in if 65 \<le> n \<and> n \<le> 90 then char_of (n + 32) else c)"

definition toLowerCase :: "string \<Rightarrow> string" where
  \<comment> \<open>\<^verbatim>\<open>s.toLowerCase()\<close> on the ASCII letters; other bytes are kept\<close>
  "toLowerCase s = map toLowerChar s"

fun includesStr :: "string \<Rightarrow> string \<Rightarrow> bool" where
  \<comment> \<open>\<^verbatim>\<open>s.includes(t)\<close>\<close>
  "includesStr [] t = (t = [])"
| "includesStr (c # cs) t = (prefix t (c # cs) \<or> includesStr cs t)"

definition middot :: string where
  \<comment> \<open>U+00B7\<close>
  "middot = [CHR 0xC2, CHR 0xB7]"

definition mu :: string where
  \<comment> \<open>U+03BC\<close>
  "mu = [CHR 0xCE, CHR 0xBC]"

definition emdash :: string where
  \<comment> \<open>U+2014\<close>
  "emdash = [CHR 0xE2, CHR 0x80, CHR 0x94]"

section \<open>CoordinateNormalizer\<close>

type_synonym box = "real \<times> real \<times> real \<times> real"

record BackendImageSize =
  width :: real
  height :: real

datatype boxFormat = XYXY | YXYX

definition imageWidth :: "BackendImageSize option \<Rightarrow> real" where
  \<comment> \<open>\<^verbatim>\<open>const width = imageSize?.width || 1\<close>\<close>
  "imageWidth imageSize = numOr (map_option width imageSize) 1"

definition imageHeight :: "BackendImageSize option \<Rightarrow> real" where
  \<comment> \<open>\<^verbatim>\<open>const height = imageSize?.height || 1\<close>\<close>
  "imageHeight imageSize = numOr (map_option height imageSize) 1"

definition normalizeBox :: "box option \<Rightarrow> BackendImageSize option \<Rightarrow> boxFormat \<Rightarrow> box" where
  "normalizeBox box imageSize format =
     (case box of
        None \<Rightarrow> (0, 0, 0, 0)
      | Some (a, b, c, d) \<Rightarrow>
          (let w = imageWidth imageSize; h = imageHeight imageSize in
           if format = XYXY then (a / w, b / h, c / w, d / h)
           else (b / w, a / h, d / w, c / h)))"

section \<open>Data model\<close>

subsection \<open>Detector records (the job result consumed at the boundary)\<close>

record BackendYoloPair =
  pair_class_name :: "string option"
  pair_box_shared :: "box option"
  pair_changed :: "bool option"
  pair_ssim :: "real option"
  pair_confidence :: "real option"
  pair_llm_damage_notes :: "string option"

text \<open>
  \<^verbatim>\<open>bbox\<close> is declared mandatory, but the value is parsed JSON and \<^verbatim>\<open>normalizeBox\<close>
  guards against its absence, so the field is optional here.
\<close>

record BackendMaskDetection =
  det_class_id :: int
  det_class_name :: "string option"
  det_bbox :: "box option"
  det_score :: "real option"
  det_mask_area :: "nat option"

text \<open>\<^verbatim>\<open>BackendChangeformerRegion\<close> extends \<^verbatim>\<open>BackendPcbRegion\<close> without a new field.\<close>

record BackendPcbRegion =
  region_id :: "string option"
  region_label :: "string option"
  region_bbox :: "box option"
  region_bboxNormalized :: "box option"
  region_centroidNormalized :: "(real \<times> real) option"
  region_pixelCount :: "nat option"
  region_areaRatio :: "real option"
  region_confidence :: "real option"
  region_source :: "string option"
  region_meanProbability :: "real option"
  region_maxProbability :: "real option"

record BackendPcbSummary =
  summary_status :: "string option"
  summary_coverage :: "real option"
  summary_pixelsChanged :: "nat option"
  summary_regionCount :: "nat option"
  summary_regions :: "BackendPcbRegion list option"

record BackendChangeformerSummary = BackendPcbSummary +
  summary_globalMeanProbability :: "real option"
  summary_globalMaxProbability :: "real option"

subsection \<open>The canonical ledger entry\<close>

datatype ChangeType = Structural | Surface | Spatial

datatype Impact = Low | Medium | High

datatype ComparisonMode = Baseline | Consecutive

record ChangeComparisonRef =
  ref_beforeIndex :: nat
  ref_afterIndex :: nat
  ref_label :: string

record SpecialistInsights =
  aero :: "string option"
  data :: "string option"

record DetectedChange =
  change_id :: string
  change_description :: string
  change_box :: box
  change_changeType :: ChangeType
  change_confidence :: real
  change_interpretation :: string
  change_impact :: Impact
  change_criticality :: int
  change_estimatedCost :: int
  change_performanceGain :: string
  change_specialistInsights :: "SpecialistInsights option"
  change_redFlags :: "string list"
  change_suggestedActions :: "string list"
  change_suggestedQuestions :: "string list"
  change_comparisonRef :: "ChangeComparisonRef option"

definition mapIndexed :: "(nat \<Rightarrow> 'a \<Rightarrow> 'b) \<Rightarrow> 'a list \<Rightarrow> 'b list" where
  \<comment> \<open>\<^verbatim>\<open>xs.map((x, index) => f(index, x))\<close>\<close>
  "mapIndexed f xs = map (\<lambda>(index, x). f index x) (enumerate 0 xs)"

section \<open>Per-detector change builders\<close>

subsection \<open>Object-diff builder\<close>

definition yoloChange :: "BackendImageSize option \<Rightarrow> nat \<Rightarrow> BackendYoloPair \<Rightarrow> DetectedChange" where
  \<comment> \<open>the callback of \<^verbatim>\<open>pairs.map\<close> in \<^verbatim>\<open>createYoloChanges\<close>; \<^verbatim>\<open>Boolean(pair.changed)\<close> holds
      for \<^verbatim>\<open>true\<close> only\<close>
  "yoloChange imageSize index pair =
     (let changed = (pair_changed pair = Some True) in
      \<lparr> change_id = ''component-'' @ showNat index,
        change_description = strOr (pair_class_name pair) (''Component '' @ showNat (index + 1)),
        change_box = normalizeBox (Some (nullish (pair_box_shared pair) (0, 0, 0, 0))) imageSize XYXY,
        change_changeType = Structural,
        change_confidence = nullish (pair_confidence pair) 0.5,
        change_interpretation =
          strOr (pair_llm_damage_notes pair)
            (if changed then ''SSIM indicates meaningful change vs. reference.''
             else ''Component stable relative to baseline.''),
        change_impact = (if changed then High else Low),
        change_criticality = (if changed then 7 else 3),
        change_estimatedCost = (if changed then 5000 else 0),
        change_performanceGain = ''N/A'',
        change_specialistInsights =
          Some \<lparr> aero = (if changed then Some ''Investigate aero impact from detected delta.'' else None),
                 data = None \<rparr>,
        change_redFlags =
          (if changed
           then [''SSIM delta '' @ nullish (map_option (toFixed 3) (pair_ssim pair)) ''N/A'']
           else []),
        change_suggestedActions =
          (if changed
           then [''Schedule inspection for '' @ strOr (pair_class_name pair) ''component'' @ ''.'']
           else [''Monitor '' @ strOr (pair_class_name pair) ''component'' @ '' for future deviations.'']),
        change_suggestedQuestions =
          (if changed
           then [''@Shourya what secondary checks do we need on '' @
                 strOr (pair_class_name pair) ''this component'' @ ''?'']
           else []),
        change_comparisonRef = None \<rparr>)"

definition createYoloChanges :: "BackendYoloPair list \<Rightarrow> BackendImageSize option \<Rightarrow> DetectedChange list" where
  "createYoloChanges pairs imageSize = mapIndexed (yoloChange imageSize) pairs"

subsection \<open>Mask/segmentation builder\<close>

definition MASK_CONFIDENCE_THRESHOLD :: real where
  "MASK_CONFIDENCE_THRESHOLD = 0.85"

definition maskChange :: "BackendImageSize option \<Rightarrow> nat \<Rightarrow> BackendMaskDetection \<Rightarrow> DetectedChange" where
  \<comment> \<open>the callback of \<^verbatim>\<open>map\<close> in \<^verbatim>\<open>createMaskChanges\<close>: \<open>index\<close> counts the kept detections;
      \<open>area\<close> is \<^verbatim>\<open>det.mask_area\<close> when it is truthy\<close>
  "maskChange imageSize index det =
     (let area = (case det_mask_area det of None \<Rightarrow> None | Some n \<Rightarrow> if n = 0 then None else Some n) in
      \<lparr> change_id = ''mask-'' @ showNat index,
        change_description = strOr (det_class_name det) (''Detection '' @ showNat (index + 1)),
        change_box = normalizeBox (det_bbox det) imageSize YXYX,
        change_changeType = Surface,
        change_confidence = nullish (det_score det) 0.6,
        change_interpretation = ''Mask R-CNN detected localized surface anomaly.'',
        change_impact = Medium,
        change_criticality = min 10 (roundHalfUp (nullish (det_score det) 0.6 * 10)),
        change_estimatedCost = 2500,
        change_performanceGain = ''N/A'',
        change_specialistInsights =
          Some \<lparr> aero = map_option (\<lambda>n. ''Approx. affected pixels: '' @ showNat n) area,
                 data = None \<rparr>,
        change_redFlags =
          (case area of None \<Rightarrow> [] | Some n \<Rightarrow> [''Mask size '' @ showNat n @ '' px'']),
        change_suggestedActions =
          [''Validate '' @ strOr (det_class_name det) ''mask region'' @ '' on the physical car.''],
        change_suggestedQuestions =
          [''@Varun what repair cost range suits '' @ strOr (det_class_name det) ''this damage'' @ ''?''],
        change_comparisonRef = None \<rparr>)"

definition keepsDetection :: "BackendMaskDetection \<Rightarrow> bool" where
  \<comment> \<open>the callback of \<^verbatim>\<open>filter\<close>: \<^verbatim>\<open>(det.score ?? 0) >= MASK_CONFIDENCE_THRESHOLD\<close>\<close>
  "keepsDetection det = (nullish (det_score det) 0 \<ge> MASK_CONFIDENCE_THRESHOLD)"

definition createMaskChanges :: "BackendMaskDetection list \<Rightarrow> BackendImageSize option \<Rightarrow> DetectedChange list" where
  "createMaskChanges dets imageSize = mapIndexed (maskChange imageSize) (filter keepsDetection dets)"

subsection \<open>Defect-region builder\<close>

definition criticalDefects :: "string list" where
  "criticalDefects =
     [''missing_hole'', ''mouse_bite'', ''open_circuit'', ''short'', ''spur'', ''spurious_copper'']"

definition alwaysHighDefects :: "string list" where
  "alwaysHighDefects = [''open_circuit'', ''short'', ''spur'', ''spurious_copper'']"

definition areaImpact :: "real \<Rightarrow> Impact" where
  \<comment> \<open>\<^verbatim>\<open>areaRatio > 0.02 ? 'High' : areaRatio > 0.008 ? 'Medium' : 'Low'\<close>\<close>
  "areaImpact areaRatio = (if areaRatio > 0.02 then High else if areaRatio > 0.008 then Medium else Low)"

definition pcbLabel :: "BackendPcbRegion \<Rightarrow> string" where
  \<comment> \<open>\<^verbatim>\<open>(region.label || region.id || '').toLowerCase()\<close>\<close>
  "pcbLabel region = toLowerCase (strOr (region_label region) (strOr (region_id region) []))"

definition pcbImpact :: "BackendPcbRegion \<Rightarrow> Impact" where
  \<comment> \<open>the variable \<^verbatim>\<open>impact\<close> of \<^verbatim>\<open>createPcbChanges\<close> after the keyword override\<close>
  "pcbImpact region =
     (let areaRatio = nullish (region_areaRatio region) 0;
          label = pcbLabel region;
          impact = areaImpact areaRatio in
      if list_ex (\<lambda>token. includesStr label token) criticalDefects
      then (if list_ex (\<lambda>token. includesStr label token) alwaysHighDefects then High
            else if areaRatio > 0.02 then High
            else Medium)
      else impact)"

definition regionBox :: "BackendPcbRegion \<Rightarrow> BackendImageSize option \<Rightarrow> box" where
  \<comment> \<open>\<^verbatim>\<open>region.bboxNormalized || (region.bbox ? normalizeBox(region.bbox, imageSize) : fallbackBox)\<close>\<close>
  "regionBox region imageSize =
     (case region_bboxNormalized region of
        Some b \<Rightarrow> b
      | None \<Rightarrow>
          (case region_bbox region of
             Some b \<Rightarrow> normalizeBox (Some b) imageSize XYXY
           | None \<Rightarrow> (0, 0, 1, 1)))"

text \<open>
  \<^verbatim>\<open>toLocaleString\<close> groups digits by the locale of the runtime, which the code does not
  fix: the formatter is a parameter \<open>loc\<close> of the builder and of everything that calls it.
\<close>

definition pcbChange ::
  "(nat \<Rightarrow> string) \<Rightarrow> BackendImageSize option \<Rightarrow> nat \<Rightarrow> BackendPcbRegion \<Rightarrow> DetectedChange" where
  \<comment> \<open>the callback of \<^verbatim>\<open>regions.map\<close> in \<^verbatim>\<open>createPcbChanges\<close>\<close>
  "pcbChange loc imageSize index region =
     (let areaRatio = nullish (region_areaRatio region) 0;
          confidence = nullish (region_confidence region) (min 0.95 (0.6 + areaRatio * 5));
          impact = pcbImpact region;
          coverageLabel =
            (if areaRatio \<noteq> 0 then toFixed 2 (areaRatio * 100) @ ''% coverage''
             else ''Pixel delta detected'');
          pixelNote =
            (case region_pixelCount region of
               None \<Rightarrow> None
             | Some n \<Rightarrow> if n = 0 then None else Some (loc n @ '' px''))
      in
      \<lparr> change_id = strOr (region_id region) (''pcb-'' @ showNat index),
        change_description = ''RF-DETR-Seg region '' @ showNat (index + 1),
        change_box = regionBox region imageSize,
        change_changeType = Surface,
        change_confidence = confidence,
        change_interpretation =
          ''PCB BIT change detection highlighted this anomaly relative to the baseline frame.'',
        change_impact = impact,
        change_criticality = (if impact = High then 8 else if impact = Medium then 6 else 3),
        change_estimatedCost = roundHalfUp (max 1500 (areaRatio * 50000)),
        change_performanceGain = ''N/A'',
        change_specialistInsights =
          Some \<lparr> aero = None,
                 data = Some (coverageLabel @
                   (case pixelNote of None \<Rightarrow> [] | Some note \<Rightarrow> '' '' @ middot @ '' '' @ note)) \<rparr>,
        change_redFlags = [coverageLabel] @ (case pixelNote of None \<Rightarrow> [] | Some note \<Rightarrow> [note]),
        change_suggestedActions =
          [''Flag PCB zone '' @ showNat (index + 1) @ '' for microscope validation.''],
        change_suggestedQuestions =
          [''@QA can we verify tolerances for zone '' @ showNat (index + 1) @ ''?''],
        change_comparisonRef = None \<rparr>)"

definition createPcbChanges ::
  "(nat \<Rightarrow> string) \<Rightarrow> BackendPcbRegion list \<Rightarrow> BackendImageSize option \<Rightarrow> DetectedChange list" where
  "createPcbChanges loc regions imageSize = mapIndexed (pcbChange loc imageSize) regions"

subsection \<open>Structural-drift builder\<close>

definition coverageUnits :: "BackendChangeformerSummary \<Rightarrow> nat" where
  \<comment> \<open>hundredths of a percent: \<^verbatim>\<open>coveragePct = Number(((summary.coverage ?? 0) * 100).toFixed(2))\<close>
      is \<open>coverageUnits / 100\<close>. The product is the double product, and \<^verbatim>\<open>toFixed\<close> rounds the
      exact value of that double; the call is reached with a positive coverage only\<close>
  "coverageUnits summary = fixedUnits 2 (doubleProduct (nullish (summary_coverage summary) 0) 100)"

definition coveragePct :: "BackendChangeformerSummary \<Rightarrow> real" where
  "coveragePct summary = real (coverageUnits summary) / 100"

definition aggregateChange :: "BackendChangeformerSummary \<Rightarrow> DetectedChange" where
  \<comment> \<open>the synthetic change \<^verbatim>\<open>createChangeformerChanges\<close> returns for a summary without regions\<close>
  "aggregateChange summary =
     (let pct = coveragePct summary; pctText = showScaled 2 (int (coverageUnits summary)) in
      \<lparr> change_id = ''changeformer-aggregate'',
        change_description = ''ChangeFormer coverage '' @ pctText @ ''%'',
        change_box = (0, 0, 1, 1),
        change_changeType = Spatial,
        change_confidence = nullish (summary_globalMaxProbability summary) 0.6,
        change_interpretation =
          ''Transformer change detection shows '' @ pctText @ ''% of pixels drifting vs. baseline.'',
        change_impact = (if pct > 3 then High else if pct > 1 then Medium else Low),
        change_criticality = (if pct > 3 then 8 else if pct > 1 then 6 else 4),
        change_estimatedCost = roundHalfUp (max 2000 (pct * 800)),
        change_performanceGain = ''N/A'',
        change_specialistInsights =
          Some \<lparr> aero = None,
                 data = Some (''Global mean P='' @
                   nullish (map_option (toFixed 3) (summary_globalMeanProbability summary)) emdash) \<rparr>,
        change_redFlags = [''Coverage '' @ pctText @ ''%''],
        change_suggestedActions = [''Overlay ChangeFormer mask on source imagery to localise stress.''],
        change_suggestedQuestions = [''@Infra what inspection tooling verifies this drift?''],
        change_comparisonRef = None \<rparr>)"

definition changeformerRegionChange ::
  "BackendChangeformerSummary \<Rightarrow> BackendImageSize option \<Rightarrow> nat \<Rightarrow> BackendPcbRegion \<Rightarrow> DetectedChange" where
  \<comment> \<open>the callback of \<^verbatim>\<open>baseRegions.map\<close> in \<^verbatim>\<open>createChangeformerChanges\<close>\<close>
  "changeformerRegionChange summary imageSize index region =
     (let areaRatio = nullish (region_areaRatio region) 0;
          confidence =
            nullish (region_maxProbability region)
              (nullish (region_meanProbability region)
                (nullish (region_confidence region)
                  (nullish (summary_globalMaxProbability summary) 0.6)));
          probabilityLabel =
            (case region_meanProbability region of
               None \<Rightarrow> None
             | Some p \<Rightarrow> if p = 0 then None else Some (mu @ ''='' @ toFixed 3 p));
          coverageLabel = toFixed 2 (areaRatio * 100) @ ''% coverage'';
          impact = areaImpact areaRatio
      in
      \<lparr> change_id = strOr (region_id region) (''changeformer-'' @ showNat index),
        change_description =
          strOr (region_label region) (''ChangeFormer region '' @ showNat (index + 1)),
        change_box = regionBox region imageSize,
        change_changeType = Spatial,
        change_confidence = confidence,
        change_interpretation = ''ChangeFormer transformer head flagged this structural drift zone.'',
        change_impact = impact,
        change_criticality = (if impact = High then 8 else if impact = Medium then 6 else 4),
        change_estimatedCost = roundHalfUp (max 3000 (areaRatio * 60000)),
        change_performanceGain = ''N/A'',
        change_specialistInsights =
          Some \<lparr> aero = None,
                 data = Some (case probabilityLabel of
                                None \<Rightarrow> coverageLabel
                              | Some pl \<Rightarrow> coverageLabel @ '' '' @ middot @ '' '' @ pl) \<rparr>,
        change_redFlags = [coverageLabel],
        change_suggestedActions =
          [''Schedule infrastructure inspection for '' @
           strOr (region_label region) (''region '' @ showNat (index + 1)) @ ''.''],
        change_suggestedQuestions = [''@Infra what remediation is required for this span?''],
        change_comparisonRef = None \<rparr>)"

definition createChangeformerChanges ::
  "BackendChangeformerSummary option \<Rightarrow> BackendImageSize option \<Rightarrow> DetectedChange list" where
  "createChangeformerChanges summaryOpt imageSize =
     (case summaryOpt of
        None \<Rightarrow> []
      | Some summary \<Rightarrow>
          (let baseRegions = nullish (summary_regions summary) [];
               totalRegions = length baseRegions in
           if totalRegions = 0 then
             (if nullish (summary_coverage summary) 0 \<le> 0 then []
              else [aggregateChange summary])
           else mapIndexed (changeformerRegionChange summary imageSize) baseRegions))"

section \<open>TimelineAssembler\<close>

subsection \<open>The job result\<close>

text \<open>
  Of each detector stage the records keep what the change ledger reads (\<^verbatim>\<open>summary\<close>,
  \<^verbatim>\<open>report\<close>, \<^verbatim>\<open>imageSize\<close>). The artifact bundles and the alignment stage feed only
  \<^verbatim>\<open>buildTimelineSummary\<close>, the diagnostics metadata of the result, which is outside this
  development.
\<close>

record ObjectDiffSummary =
  od_paired :: "BackendYoloPair list option"

record BackendObjectDiffStage =
  od_summary :: "ObjectDiffSummary option"
  od_report :: "ObjectDiffSummary option"
  od_imageSize :: "BackendImageSize option"

record MaskSummary =
  mask_detections :: "BackendMaskDetection list option"

record BackendMaskStage =
  mask_summary :: "MaskSummary option"
  mask_imageSize :: "BackendImageSize option"

record BackendPcbStage =
  pcb_summary :: "BackendPcbSummary option"
  pcb_imageSize :: "BackendImageSize option"

record BackendChangeformerStage =
  cf_summary :: "BackendChangeformerSummary option"
  cf_imageSize :: "BackendImageSize option"

record BackendPipelineStages =
  object_diff :: "BackendObjectDiffStage option"
  mask_rcnn :: "BackendMaskStage option"
  pcb_cd :: "BackendPcbStage option"
  changeformer_cd :: "BackendChangeformerStage option"

record BackendFrameInfo =
  frame_index :: nat
  frame_path :: "string option"
  frame_originalName :: "string option"

record BackendTimelineEntry =
  entry_beforeIndex :: nat
  entry_afterIndex :: nat
  entry_beforePath :: "string option"
  entry_afterPath :: "string option"
  entry_comparisonRoot :: "string option"
  entry_pipeline :: "BackendPipelineStages option"

record BackendJobError =
  error_message :: "string option"
  error_stage :: "string option"
  error_stdout :: "string option"
  error_stderr :: "string option"

record BackendJobResponse =
  job_jobId :: string
  job_status :: string
  job_comparisonMode :: "ComparisonMode option"
  job_baselineIndex :: "nat option"
  job_frames :: "BackendFrameInfo list option"
  job_timeline :: "BackendTimelineEntry list option"
  job_error :: "BackendJobError option"
  job_pipeline :: "BackendPipelineStages option"

subsection \<open>Reading the detector payloads of a pipeline\<close>

text \<open>An array is truthy even when empty, so \<^verbatim>\<open>a || b || []\<close> takes the first array present.\<close>

definition yoloPairsOf :: "BackendPipelineStages \<Rightarrow> BackendYoloPair list" where
  \<comment> \<open>\<^verbatim>\<open>p.object_diff?.report?.paired || p.object_diff?.summary?.paired || []\<close>\<close>
  "yoloPairsOf p =
     (case Option.bind (Option.bind (object_diff p) od_report) od_paired of
        Some ps \<Rightarrow> ps
      | None \<Rightarrow> nullish (Option.bind (Option.bind (object_diff p) od_summary) od_paired) [])"

definition maskDetectionsOf :: "BackendPipelineStages \<Rightarrow> BackendMaskDetection list" where
  \<comment> \<open>\<^verbatim>\<open>p.mask_rcnn?.summary?.detections || []\<close>\<close>
  "maskDetectionsOf p = nullish (Option.bind (Option.bind (mask_rcnn p) mask_summary) mask_detections) []"

definition pcbRegionsOf :: "BackendPipelineStages \<Rightarrow> BackendPcbRegion list" where
  \<comment> \<open>\<^verbatim>\<open>p.pcb_cd?.summary?.regions || []\<close>\<close>
  "pcbRegionsOf p = nullish (Option.bind (Option.bind (pcb_cd p) pcb_summary) summary_regions) []"

definition changeformerSummaryOf :: "BackendPipelineStages \<Rightarrow> BackendChangeformerSummary option" where
  \<comment> \<open>\<^verbatim>\<open>p.changeformer_cd?.summary\<close>\<close>
  "changeformerSummaryOf p = Option.bind (changeformer_cd p) cf_summary"

subsection \<open>Labelling and re-keying\<close>

definition formatComparisonLabel :: "nat \<Rightarrow> nat \<Rightarrow> ComparisonMode \<Rightarrow> string" where
  "formatComparisonLabel afterIndex beforeIndex mode =
     (if mode = Consecutive
      then ''Frame '' @ showNat (afterIndex + 1) @ '' vs Frame '' @ showNat (beforeIndex + 1)
      else ''Frame '' @ showNat (afterIndex + 1) @ '' vs Baseline'')"

definition labelTimelineChanges ::
  "DetectedChange list \<Rightarrow> nat \<Rightarrow> nat \<Rightarrow> ComparisonMode \<Rightarrow> string \<Rightarrow> DetectedChange list" where
  "labelTimelineChanges baseChanges afterIndex beforeIndex mode pfx =
     (let label = formatComparisonLabel afterIndex beforeIndex mode in
      mapIndexed
        (\<lambda>idx change. change
           \<lparr> change_id := pfx @ ''-f'' @ showNat afterIndex @ ''-'' @ showNat idx,
             change_description := change_description change @ '' '' @ middot @ '' '' @ label,
             change_comparisonRef :=
               Some \<lparr> ref_beforeIndex = beforeIndex, ref_afterIndex = afterIndex, ref_label = label \<rparr> \<rparr>)
        baseChanges)"

definition entryChanges ::
  "(nat \<Rightarrow> string) \<Rightarrow> ComparisonMode \<Rightarrow> BackendTimelineEntry \<Rightarrow> DetectedChange list" where
  \<comment> \<open>the callback of \<^verbatim>\<open>job.timeline.flatMap\<close>\<close>
  "entryChanges loc mode entry =
     (case entry_pipeline entry of
        None \<Rightarrow> []
      | Some timelinePipeline \<Rightarrow>
          (let yoloPairs = yoloPairsOf timelinePipeline;
               maskDetections = maskDetectionsOf timelinePipeline;
               pcbRegions = pcbRegionsOf timelinePipeline;
               changeformerSummary = changeformerSummaryOf timelinePipeline;
               pcbChanges =
                 labelTimelineChanges
                   (createPcbChanges loc pcbRegions (Option.bind (pcb_cd timelinePipeline) pcb_imageSize))
                   (entry_afterIndex entry) (entry_beforeIndex entry) mode ''pcb'';
               yoloChanges =
                 labelTimelineChanges
                   (createYoloChanges yoloPairs (Option.bind (object_diff timelinePipeline) od_imageSize))
                   (entry_afterIndex entry) (entry_beforeIndex entry) mode ''RF-DETR-Seg'';
               maskChanges =
                 labelTimelineChanges
                   (createMaskChanges maskDetections (Option.bind (mask_rcnn timelinePipeline) mask_imageSize))
                   (entry_afterIndex entry) (entry_beforeIndex entry) mode ''mask'';
               changeformerChanges =
                 labelTimelineChanges
                   (createChangeformerChanges changeformerSummary
                      (Option.bind (changeformer_cd timelinePipeline) cf_imageSize))
                   (entry_afterIndex entry) (entry_beforeIndex entry) mode ''changeformer''
           in pcbChanges @ yoloChanges @ maskChanges @ changeformerChanges))"

definition collectTimelineChanges :: "(nat \<Rightarrow> string) \<Rightarrow> BackendJobResponse \<Rightarrow> DetectedChange list" where
  "collectTimelineChanges loc job =
     (case job_timeline job of
        None \<Rightarrow> []
      | Some timeline \<Rightarrow>
          if length timeline = 0 then []
          else concat (map (entryChanges loc (nullish (job_comparisonMode job) Baseline)) timeline))"

section \<open>AnalysisResultAssembler\<close>

datatype DomainMode = F1 | Manufacturing | Infrastructure | QA

definition domainName :: "DomainMode \<Rightarrow> string" where
  "domainName domain =
     (case domain of
        F1 \<Rightarrow> ''F1''
      | Manufacturing \<Rightarrow> ''Manufacturing''
      | Infrastructure \<Rightarrow> ''Infrastructure''
      | QA \<Rightarrow> ''QA'')"

text \<open>The \<^verbatim>\<open>timeline\<close> field of the result (diagnostics metadata) is not modelled.\<close>

record AnalysisResult =
  result_summary :: string
  result_changes :: "DetectedChange list"
  result_recommendations :: "string list"
  result_isDemoMode :: bool
  result_jobId :: "string option"

definition emptyPipeline :: BackendPipelineStages where
  \<comment> \<open>\<^verbatim>\<open>{}\<close>\<close>
  "emptyPipeline = \<lparr> object_diff = None, mask_rcnn = None, pcb_cd = None, changeformer_cd = None \<rparr>"

definition jobPipeline :: "BackendJobResponse \<Rightarrow> BackendPipelineStages" where
  \<comment> \<open>\<^verbatim>\<open>const pipeline = job.pipeline || {}\<close>\<close>
  "jobPipeline job = nullish (job_pipeline job) emptyPipeline"

definition fallbackChanges :: "(nat \<Rightarrow> string) \<Rightarrow> BackendJobResponse \<Rightarrow> DetectedChange list" where
  "fallbackChanges loc job =
     (let pipeline = jobPipeline job in
      createPcbChanges loc (pcbRegionsOf pipeline) (Option.bind (pcb_cd pipeline) pcb_imageSize) @
      createYoloChanges (yoloPairsOf pipeline) (Option.bind (object_diff pipeline) od_imageSize) @
      createMaskChanges (maskDetectionsOf pipeline) (Option.bind (mask_rcnn pipeline) mask_imageSize) @
      createChangeformerChanges (changeformerSummaryOf pipeline)
        (Option.bind (changeformer_cd pipeline) cf_imageSize))"

definition tenths :: "real \<Rightarrow> string" where
  \<comment> \<open>\<^verbatim>\<open>`${Math.round(c * 1000) / 10}`\<close>\<close>
  "tenths c = showScaled 1 (roundHalfUp (c * 1000))"

definition buildRecommendations ::
  "nat \<Rightarrow> nat \<Rightarrow> real \<Rightarrow> nat \<Rightarrow> real \<Rightarrow> bool \<Rightarrow> string list" where
  "buildRecommendations changedComponents pcbRegionCount pcbCoverage changeformerRegionCount
       changeformerCoverage hasMaskChanges =
     (if changedComponents > 0
      then [''Prioritise inspection of '' @ showNat changedComponents @
            '' component(s) flagged by SSIM/RF-DETR-Seg.'']
      else [''No high-impact structural deltas detected; continue baseline monitoring.'']) @
     (if pcbRegionCount \<noteq> 0
      then [''Review RF-DETR-Seg manufacturing mask (~'' @ tenths pcbCoverage @
            ''% coverage) before releasing to Gemini.'']
      else if pcbCoverage > 0
      then [''RF-DETR-Seg detected low-level PCB drift (~'' @ tenths pcbCoverage @
            ''% coverage); spot-check the suspect zones.'']
      else []) @
     (if changeformerRegionCount \<noteq> 0
      then [''Inspect '' @ showNat changeformerRegionCount @
            '' ChangeFormer structural region(s) before clearing infrastructure alert.'']
      else if changeformerCoverage > 0.01
      then [''Review ChangeFormer heatmap (~'' @ tenths changeformerCoverage @
            ''% coverage) to localise infrastructure stress.'']
      else []) @
     (if hasMaskChanges then [''Review Mask R-CNN overlay for precise damage contours.''] else []) @
     [''Use backend artifacts for engineering deep dives or export packages.'']"

definition buildSummary ::
  "DomainMode \<Rightarrow> nat \<Rightarrow> nat \<Rightarrow> real \<Rightarrow> nat \<Rightarrow> real \<Rightarrow> string" where
  "buildSummary domain changedComponents pcbRegionCount pcbCoverage changeformerRegionCount
       changeformerCoverage =
     (if domain = Manufacturing then
        (if pcbRegionCount > 0
         then ''RF-DETR-Seg flagged '' @ showNat pcbRegionCount @ '' manufacturing defect'' @
              (if pcbRegionCount > 1 then ''s'' else []) @ '' (~'' @ tenths pcbCoverage @ ''% coverage).''
         else if pcbCoverage > 0
         then ''RF-DETR-Seg detected ~'' @ tenths pcbCoverage @
              ''% low-level PCB drift without discrete regions.''
         else ''RF-DETR-Seg reports no manufacturing anomalies versus baseline.'')
      else if domain = Infrastructure then
        (if changeformerRegionCount > 0
         then ''ChangeFormer highlighted '' @ showNat changeformerRegionCount @
              '' infrastructure drift region'' @ (if changeformerRegionCount > 1 then ''s'' else []) @ ''.''
         else if changeformerCoverage > 0
         then ''ChangeFormer heatmap shows ~'' @ tenths changeformerCoverage @
              ''% diffuse drift; monitor the span.''
         else ''ChangeFormer reports no structural drift versus baseline.'')
      else if changedComponents \<noteq> 0
      then ''Detected '' @ showNat changedComponents @ '' structural changes in '' @
           domainName domain @ '' mode.''
      else ''No major deltas found for '' @ domainName domain @
           '' mode. Alignment + SSIM agree with baseline.'')"

definition assembleAnalysisResult ::
  "(nat \<Rightarrow> string) \<Rightarrow> BackendJobResponse \<Rightarrow> DomainMode \<Rightarrow> AnalysisResult" where
  "assembleAnalysisResult loc job domain =
     (let pipeline = jobPipeline job;
          fallbackMaskDetections = maskDetectionsOf pipeline;
          timelineChanges = collectTimelineChanges loc job;
          changes = (if length timelineChanges \<noteq> 0 then timelineChanges else fallbackChanges loc job);
          hasMaskChanges =
            (if length timelineChanges \<noteq> 0
             then list_ex (\<lambda>change. prefix ''mask'' (change_id change)) timelineChanges
             else length fallbackMaskDetections > 0);
          pcbSummary = Option.bind (pcb_cd pipeline) pcb_summary;
          pcbRegionCount = nullish (Option.bind pcbSummary summary_regionCount) 0;
          pcbCoverage = nullish (Option.bind pcbSummary summary_coverage) 0;
          changeformerSummary = Option.bind (changeformer_cd pipeline) cf_summary;
          changeformerRegionCount = nullish (Option.bind changeformerSummary summary_regionCount) 0;
          changeformerCoverage = nullish (Option.bind changeformerSummary summary_coverage) 0;
          changedComponents = length (filter (\<lambda>change. change_impact change = High) changes)
      in
      \<lparr> result_summary =
          buildSummary domain changedComponents pcbRegionCount pcbCoverage changeformerRegionCount
            changeformerCoverage,
        result_changes = changes,
        result_recommendations =
          buildRecommendations changedComponents pcbRegionCount pcbCoverage changeformerRegionCount
            changeformerCoverage hasMaskChanges,
        result_isDemoMode = False,
        result_jobId = Some (job_jobId job) \<rparr>)"

subsection \<open>The public entry point\<close>

text \<open>
  \<^verbatim>\<open>analyzeWithBackend\<close> posts the frames and awaits the job. The orchestrator is the
  parameter \<open>backend\<close>: it answers a request with a response, or with nothing when the
  request itself fails. The calls of \<^verbatim>\<open>setProgress\<close> are returned as a trace, and every
  rejection of the promise is an \<open>Inl\<close>. (\<open>URIError\<close> is the error of the artifact
  resolver further down.)
\<close>

datatype error = Error string | FetchFailed | JsonSyntaxError | URIError

record ImageFile =
  image_id :: string
  image_fileName :: string
  image_previewUrl :: string
  image_label :: string

record JobRequest =
  request_frames :: "string list"
  request_domain :: DomainMode
  request_comparisonMode :: ComparisonMode
  request_baselineIndex :: string

record HttpResponse =
  response_ok :: bool
  response_text :: string
  response_json :: "BackendJobResponse option"

definition progressLabel :: "DomainMode \<Rightarrow> string" where
  "progressLabel domain =
     (if domain = Manufacturing then ''Running RF-DETR-Seg manufacturing pipeline...''
      else if domain = Infrastructure then ''Running ChangeFormer infrastructure pipeline...''
      else ''Running SSIM, RF-DETR-Seg, and Mask R-CNN pipelines...'')"

definition formData :: "ImageFile list \<Rightarrow> DomainMode \<Rightarrow> ComparisonMode \<Rightarrow> JobRequest" where
  \<comment> \<open>the body of the \<^verbatim>\<open>POST /api/jobs\<close> request\<close>
  "formData imageFiles domain comparisonMode =
     \<lparr> request_frames = map image_fileName imageFiles,
       request_domain = domain,
       request_comparisonMode = comparisonMode,
       request_baselineIndex = ''0'' \<rparr>"

definition analyzeWithBackend ::
  "(nat \<Rightarrow> string) \<Rightarrow> (JobRequest \<Rightarrow> HttpResponse option) \<Rightarrow> ImageFile list \<Rightarrow> DomainMode \<Rightarrow>
   ComparisonMode \<Rightarrow> (nat \<times> string) list \<times> (error + AnalysisResult)" where
  "analyzeWithBackend loc backend imageFiles domain comparisonMode =
     (if length imageFiles < 2
      then ([], Inl (Error ''At least two images are required for backend analysis.''))
      else
        (let uploading = [(15, ''Uploading ordered frames to backend orchestrator...'')] in
         case backend (formData imageFiles domain comparisonMode) of
           None \<Rightarrow> (uploading, Inl FetchFailed)
         | Some response \<Rightarrow>
             if \<not> response_ok response
             then (uploading,
                   Inl (Error (if response_text response \<noteq> [] then response_text response
                               else ''Backend analysis request failed.'')))
             else
               (let running = uploading @ [(60, progressLabel domain)] in
                case response_json response of
                  None \<Rightarrow> (running, Inl JsonSyntaxError)
                | Some job \<Rightarrow>
                    if job_status job \<noteq> ''completed''
                    then (running,
                          Inl (Error (strOr (Option.bind (job_error job) error_message)
                                        ''Analysis job failed on the backend.'')))
                    else (running @ [(90, ''Synthesizing engineering brief...'')],
                          Inr (assembleAnalysisResult loc job domain)))))"

section \<open>ArtifactURLResolver\<close>

subsection \<open>String primitives of the resolver\<close>

definition whiteSpace :: "string list" where
  \<comment> \<open>the UTF-8 forms of the characters \<^verbatim>\<open>String.prototype.trim\<close> removes: TAB, LF, VT, FF, CR,
      SPACE, U+00A0, U+1680, U+2000 to U+200A, U+2028, U+2029, U+202F, U+205F, U+3000, U+FEFF\<close>
  "whiteSpace =
     [[CHR 0x09], [CHR 0x0A], [CHR 0x0B], [CHR 0x0C], [CHR 0x0D], [CHR 0x20],
      [CHR 0xC2, CHR 0xA0], [CHR 0xE1, CHR 0x9A, CHR 0x80]] @
     map (\<lambda>n. [CHR 0xE2, CHR 0x80, char_of (128 + n)]) [0 ..< 11] @
     [[CHR 0xE2, CHR 0x80, CHR 0xA8], [CHR 0xE2, CHR 0x80, CHR 0xA9],
      [CHR 0xE2, CHR 0x80, CHR 0xAF], [CHR 0xE2, CHR 0x81, CHR 0x9F],
      [CHR 0xE3, CHR 0x80, CHR 0x80], [CHR 0xEF, CHR 0xBB, CHR 0xBF]]"

function stripLeading :: "string list \<Rightarrow> string \<Rightarrow> string" where
  \<comment> \<open>removes leading occurrences of the given tokens\<close>
  "stripLeading tokens s =
     (case find (\<lambda>w. w \<noteq> [] \<and> prefix w s) tokens of
        None \<Rightarrow> s
      | Some w \<Rightarrow> stripLeading tokens (drop (length w) s))"
  by pat_completeness auto
termination
proof (relation "measure (\<lambda>(tokens, s). length s)")
  show "wf (measure (\<lambda>(tokens, s). length s))"
    by simp
next
  fix tokens :: "string list" and s w :: string
  assume "find (\<lambda>w. w \<noteq> [] \<and> prefix w s) tokens = Some w"
  then have "w \<noteq> []" and "prefix w s"
    by (auto simp: find_Some_iff)
  then have "s \<noteq> []" and "0 < length w"
    by auto
  then show "((tokens, drop (length w) s), (tokens, s)) \<in> measure (\<lambda>(tokens, s). length s)"
    by simp
qed

declare stripLeading.simps [simp del]

definition trim :: "string \<Rightarrow> string" where
  \<comment> \<open>\<^verbatim>\<open>s.trim()\<close>\<close>
  "trim s = rev (stripLeading (map rev whiteSpace) (rev (stripLeading whiteSpace s)))"

definition isHttp :: "string \<Rightarrow> bool" where
  \<comment> \<open>\<^verbatim>\<open>/^https?:/i.test(s)\<close>\<close>
  "isHttp s = (let l = toLowerCase s in prefix ''http:'' l \<or> prefix ''https:'' l)"

fun takeLine :: "string \<Rightarrow> string" where
  \<comment> \<open>the longest prefix matched by \<^verbatim>\<open>.*\<close>: it stops at LF, CR, U+2028 and U+2029\<close>
  "takeLine [] = []"
| "takeLine (c # cs) =
     (if c = CHR 0x0A \<or> c = CHR 0x0D \<or> prefix [CHR 0xE2, CHR 0x80, CHR 0xA8] (c # cs)
         \<or> prefix [CHR 0xE2, CHR 0x80, CHR 0xA9] (c # cs)
      then [] else c # takeLine cs)"

definition matchJobPathAt :: "string \<Rightarrow> (string \<times> string) option" where
  \<comment> \<open>\<^verbatim>\<open>/\/data\/jobs\/([^/]+)\/(.+)/\<close> tried at the start of \<open>s\<close>: the two groups\<close>
  "matchJobPathAt s =
     (if prefix ''/data/jobs/'' s then
        (let rest = drop (length ''/data/jobs/'') s;
             jobId = takeWhile (\<lambda>c. c \<noteq> CHR ''/'') rest;
             after = dropWhile (\<lambda>c. c \<noteq> CHR ''/'') rest in
         if jobId = [] then None
         else (case after of
                 [] \<Rightarrow> None
               | _ # remainder \<Rightarrow>
                   (let relativePath = takeLine remainder in
                    if relativePath = [] then None else Some (jobId, relativePath))))
      else None)"

fun matchJobPath :: "string \<Rightarrow> (string \<times> string) option" where
  \<comment> \<open>\<^verbatim>\<open>s.match(JOB_PATH_REGEX)\<close>: the leftmost position where the pattern matches\<close>
  "matchJobPath [] = None"
| "matchJobPath (c # cs) =
     (case matchJobPathAt (c # cs) of
        Some groups \<Rightarrow> Some groups
      | None \<Rightarrow> matchJobPath cs)"

fun splitOn :: "char \<Rightarrow> string \<Rightarrow> string list" where
  \<comment> \<open>\<^verbatim>\<open>s.split(sep)\<close> for a one-character separator\<close>
  "splitOn sep [] = [[]]"
| "splitOn sep (c # cs) =
     (if c = sep then [] # splitOn sep cs
      else (case splitOn sep cs of
              [] \<Rightarrow> [[c]]
            | seg # segs \<Rightarrow> (c # seg) # segs))"

fun joinWith :: "string \<Rightarrow> string list \<Rightarrow> string" where
  \<comment> \<open>\<^verbatim>\<open>xs.join(sep)\<close>\<close>
  "joinWith sep [] = []"
| "joinWith sep [x] = x"
| "joinWith sep (x # y # ys) = x @ sep @ joinWith sep (y # ys)"

definition hexDigit :: "nat \<Rightarrow> char" where
  "hexDigit d = ''0123456789ABCDEF'' ! d"

definition unreserved :: "char \<Rightarrow> bool" where
  \<comment> \<open>the characters \<^verbatim>\<open>encodeURIComponent\<close> keeps\<close>
  "unreserved c =
     (let n = (of_char c :: nat) in
      (65 \<le> n \<and> n \<le> 90) \<or> (97 \<le> n \<and> n \<le> 122) \<or> (48 \<le> n \<and> n \<le> 57)
      \<or> c \<in> set ''-_.!~*'()'')"

definition surrogateStart :: "char \<Rightarrow> char \<Rightarrow> bool" where
  \<comment> \<open>the first two bytes of the three-byte form of U+D800 to U+DFFF\<close>
  "surrogateStart c d = (c = CHR 0xED \<and> (0xA0::nat) \<le> of_char d \<and> (of_char d :: nat) \<le> 0xBF)"

fun hasLoneSurrogate :: "string \<Rightarrow> bool" where
  \<comment> \<open>the string holds an unpaired surrogate\<close>
  "hasLoneSurrogate (c # d # cs) = (surrogateStart c d \<or> hasLoneSurrogate (d # cs))"
| "hasLoneSurrogate _ = False"

definition encodeURIComponent :: "string \<Rightarrow> error + string" where
  \<comment> \<open>every byte of the UTF-8 form that is not kept becomes \<^verbatim>\<open>%XX\<close>; a string with an unpaired
      surrogate has no UTF-8 form and raises \<^verbatim>\<open>URIError\<close>\<close>
  "encodeURIComponent s =
     (if hasLoneSurrogate s then Inl URIError
      else Inr (concat (map (\<lambda>c. if unreserved c then [c]
                                   else [CHR ''%'', hexDigit (of_char c div 16), hexDigit (of_char c mod 16)])
                            s)))"

fun mapOrThrow :: "('a \<Rightarrow> error + 'b) \<Rightarrow> 'a list \<Rightarrow> error + 'b list" where
  \<comment> \<open>\<^verbatim>\<open>xs.map(f)\<close> for a callback that may throw: the first error ends the map\<close>
  "mapOrThrow f [] = Inr []"
| "mapOrThrow f (x # xs) =
     (case f x of
        Inl e \<Rightarrow> Inl e
      | Inr y \<Rightarrow> (case mapOrThrow f xs of Inl e \<Rightarrow> Inl e | Inr ys \<Rightarrow> Inr (y # ys)))"

definition encodeSegmentedPath :: "string \<Rightarrow> error + string" where
  "encodeSegmentedPath path =
     (case mapOrThrow encodeURIComponent (filter (\<lambda>seg. seg \<noteq> []) (splitOn (CHR ''/'') path)) of
        Inl e \<Rightarrow> Inl e
      | Inr encoded \<Rightarrow> Inr (joinWith ''/'' encoded))"

subsection \<open>The resolver\<close>

definition ORCHESTRATOR_BASE :: "string option \<Rightarrow> string" where
  \<comment> \<open>\<^verbatim>\<open>import.meta.env.VITE_ORCHESTRATOR_URL || 'http://localhost:8000'\<close>; the environment
      value is a parameter\<close>
  "ORCHESTRATOR_BASE env = strOr env ''http://localhost:8000''"

definition dropTrailingSlash :: "string \<Rightarrow> string" where
  \<comment> \<open>\<^verbatim>\<open>s.replace(/\/$/, '')\<close>\<close>
  "dropTrailingSlash s = (if s \<noteq> [] \<and> last s = CHR ''/'' then butlast s else s)"

definition resolveArtifactUrl ::
  "string option \<Rightarrow> string option \<Rightarrow> string option \<Rightarrow> error + string option" where
  \<comment> \<open>\<open>Inr None\<close> is \<^verbatim>\<open>null\<close>; \<open>Inl\<close> is the error \<^verbatim>\<open>encodeURIComponent\<close> throws\<close>
  "resolveArtifactUrl env artifact comparisonRoot =
     (case artifact of
        None \<Rightarrow> Inr None
      | Some a \<Rightarrow>
          if a = [] then Inr None
          else
            (let trimmed = trim a; base = dropTrailingSlash (ORCHESTRATOR_BASE env) in
             if trimmed = [] then Inr None
             else if isHttp trimmed then Inr (Some trimmed)
             else if prefix ''//'' trimmed then Inr (Some (''https:'' @ trimmed))
             else
               (case matchJobPath trimmed of
                  Some (jobId, relativePath) \<Rightarrow>
                    (case encodeSegmentedPath relativePath of
                       Inl e \<Rightarrow> Inl e
                     | Inr encoded \<Rightarrow>
                         Inr (Some (base @ ''/api/jobs/'' @ jobId @ ''/artifacts/'' @ encoded)))
                | None \<Rightarrow>
                    (case Option.bind comparisonRoot matchJobPath of
                       Some (jobId, _) \<Rightarrow>
                         (case encodeSegmentedPath trimmed of
                            Inl e \<Rightarrow> Inl e
                          | Inr sanitized \<Rightarrow>
                              Inr (Some (base @ ''/api/jobs/'' @ jobId @ ''/artifacts/'' @ sanitized)))
                     | None \<Rightarrow>
                         if prefix ''/'' trimmed then Inr (Some (base @ trimmed))
                         else (case encodeSegmentedPath trimmed of
                                 Inl e \<Rightarrow> Inl e
                               | Inr encoded \<Rightarrow> Inr (Some (base @ ''/'' @ encoded)))))))"

section \<open>JavaScript division, for stating what a quotient would be\<close>

text \<open>
  The embedding divides real numbers, and HOL sets \<open>x / 0 = 0\<close>. JavaScript does not:
  a quotient by zero is an infinity or \<^verbatim>\<open>NaN\<close>. Where a property speaks of a quotient
  whose divisor may be zero, it is stated with \<open>jsDivide\<close>.
\<close>

datatype jsnum = Finite real | PosInfinity | NegInfinity | NaN

definition jsDivide :: "real \<Rightarrow> real \<Rightarrow> jsnum" where
  "jsDivide x y =
     (if y \<noteq> 0 then Finite (x / y)
      else if x > 0 then PosInfinity
      else if x < 0 then NegInfinity
      else NaN)"

definition finiteBox :: "box \<Rightarrow> jsnum \<times> jsnum \<times> jsnum \<times> jsnum" where
  "finiteBox bx = (Finite (fst bx), Finite (fst (snd bx)), Finite (fst (snd (snd bx))),
                   Finite (snd (snd (snd bx))))"

section \<open>Example inputs\<close>

text \<open>Records with every optional field absent; the examples below fill in what they need.\<close>

definition noPair :: BackendYoloPair where
  "noPair = \<lparr> pair_class_name = None, pair_box_shared = None, pair_changed = None,
              pair_ssim = None, pair_confidence = None, pair_llm_damage_notes = None \<rparr>"

definition noDetection :: BackendMaskDetection where
  "noDetection = \<lparr> det_class_id = 0, det_class_name = None, det_bbox = None, det_score = None,
                   det_mask_area = None \<rparr>"

definition noRegion :: BackendPcbRegion where
  "noRegion = \<lparr> region_id = None, region_label = None, region_bbox = None,
                region_bboxNormalized = None, region_centroidNormalized = None,
                region_pixelCount = None, region_areaRatio = None, region_confidence = None,
                region_source = None, region_meanProbability = None, region_maxProbability = None \<rparr>"

definition noSummary :: BackendChangeformerSummary where
  "noSummary = \<lparr> summary_status = None, summary_coverage = None, summary_pixelsChanged = None,
                 summary_regionCount = None, summary_regions = None,
                 summary_globalMeanProbability = None, summary_globalMaxProbability = None \<rparr>"

definition noJob :: BackendJobResponse where
  "noJob = \<lparr> job_jobId = ''job-1'', job_status = ''completed'', job_comparisonMode = None,
             job_baselineIndex = None, job_frames = None, job_timeline = None, job_error = None,
             job_pipeline = None \<rparr>"

definition frameFile :: "string \<Rightarrow> ImageFile" where
  "frameFile name = \<lparr> image_id = name, image_fileName = name, image_previewUrl = [], image_label = name \<rparr>"

definition answers :: "BackendJobResponse \<Rightarrow> JobRequest \<Rightarrow> HttpResponse option" where
  \<comment> \<open>an orchestrator that answers every request with status 200 and the given job\<close>
  "answers job request = Some \<lparr> response_ok = True, response_text = [], response_json = Some job \<rparr>"

definition objectDiffOnly :: "BackendYoloPair list \<Rightarrow> BackendPipelineStages" where
  \<comment> \<open>a pipeline in which only the object-diff stage ran, reporting the given pairs\<close>
  "objectDiffOnly pairs =
     emptyPipeline \<lparr> object_diff :=
       Some \<lparr> od_summary = None, od_report = Some \<lparr> od_paired = Some pairs \<rparr>, od_imageSize = None \<rparr> \<rparr>"

definition timelineEntry :: "nat \<Rightarrow> nat \<Rightarrow> BackendPipelineStages \<Rightarrow> BackendTimelineEntry" where
  \<comment> \<open>the comparison of frame \<open>afterIndex\<close> with frame \<open>beforeIndex\<close>\<close>
  "timelineEntry beforeIndex afterIndex pipeline =
     \<lparr> entry_beforeIndex = beforeIndex, entry_afterIndex = afterIndex, entry_beforePath = None,
       entry_afterPath = None, entry_comparisonRoot = None, entry_pipeline = Some pipeline \<rparr>"

definition threeFrames :: "BackendFrameInfo list" where
  "threeFrames = map (\<lambda>i. \<lparr> frame_index = i, frame_path = None, frame_originalName = None \<rparr>) [0, 1, 2]"

definition scenarioA :: "BackendYoloPair list \<Rightarrow> BackendYoloPair list \<Rightarrow> BackendJobResponse" where
  \<comment> \<open>three frames compared consecutively, the object-diff stage alone: \<open>first\<close> are the
      pairs of frame 1 against frame 0, \<open>second\<close> those of frame 2 against frame 1\<close>
  "scenarioA first second =
     noJob \<lparr> job_comparisonMode := Some Consecutive,
             job_frames := Some threeFrames,
             job_timeline := Some [timelineEntry 0 1 (objectDiffOnly first),
                                   timelineEntry 1 2 (objectDiffOnly second)] \<rparr>"

definition allDetectors :: BackendPipelineStages where
  \<comment> \<open>a pipeline in which every detector reports one finding: a pair (in the summary of the
      object-diff stage, which has no report), a detection scored 0.9, a defect region and a
      structural-drift region\<close>
  "allDetectors =
     \<lparr> object_diff =
         Some \<lparr> od_summary = Some \<lparr> od_paired = Some [noPair] \<rparr>, od_report = None, od_imageSize = None \<rparr>,
       mask_rcnn =
         Some \<lparr> mask_summary = Some \<lparr> mask_detections = Some [noDetection \<lparr> det_score := Some 0.9 \<rparr>] \<rparr>,
                mask_imageSize = None \<rparr>,
       pcb_cd =
         Some \<lparr> pcb_summary = Some (BackendPcbSummary.truncate noSummary \<lparr> summary_regions := Some [noRegion] \<rparr>),
                pcb_imageSize = None \<rparr>,
       changeformer_cd =
         Some \<lparr> cf_summary = Some (noSummary \<lparr> summary_regions := Some [noRegion] \<rparr>),
                cf_imageSize = None \<rparr> \<rparr>"

section \<open>Auxiliary notions for the uniqueness of ids\<close>

definition digitValue :: "char \<Rightarrow> nat" where
  "digitValue c = of_char c - 48"

definition readNat :: "string \<Rightarrow> nat" where
  \<comment> \<open>the number a decimal numeral stands for: the inverse of \<open>showNat\<close>\<close>
  "readNat s = foldl (\<lambda>acc c. 10 * acc + digitValue c) 0 s"

definition timelinePrefixes :: "string list" where
  \<comment> \<open>the prefixes \<^verbatim>\<open>collectTimelineChanges\<close> passes to \<^verbatim>\<open>labelTimelineChanges\<close>\<close>
  "timelinePrefixes = [''pcb'', ''RF-DETR-Seg'', ''mask'', ''changeformer'']"

definition timelineId :: "string \<Rightarrow> nat \<Rightarrow> nat \<Rightarrow> string" where
  \<comment> \<open>\<^verbatim>\<open>`${prefix}-f${afterIndex}-${idx}`\<close>\<close>
  "timelineId pfx afterIndex idx = pfx @ ''-f'' @ showNat afterIndex @ ''-'' @ showNat idx"

definition suppliedRegionIds :: "BackendPcbRegion list \<Rightarrow> string list" where
  \<comment> \<open>the ids the detector supplies: the non-empty \<^verbatim>\<open>region.id\<close> values, in order\<close>
  "suppliedRegionIds regions =
     List.map_filter
       (\<lambda>region. case region_id region of
                    None \<Rightarrow> None
                  | Some s \<Rightarrow> if s = [] then None else Some s)
       regions"

definition changeformerRegionsOf :: "BackendPipelineStages \<Rightarrow> BackendPcbRegion list" where
  \<comment> \<open>\<^verbatim>\<open>p.changeformer_cd?.summary?.regions || []\<close>\<close>
  "changeformerRegionsOf p = nullish (Option.bind (changeformerSummaryOf p) summary_regions) []"

definition suppliedIds :: "BackendJobResponse \<Rightarrow> string list" where
  \<comment> \<open>the detector-supplied ids of the job-level regions\<close>
  "suppliedIds job =
     suppliedRegionIds (pcbRegionsOf (jobPipeline job)) @
     suppliedRegionIds (changeformerRegionsOf (jobPipeline job))"

definition reservedId :: "string \<Rightarrow> bool" where
  \<comment> \<open>an id that starts like a locally generated one\<close>
  "reservedId s =
     (prefix ''pcb-'' s \<or> prefix ''component-'' s \<or> prefix ''mask-'' s \<or> prefix ''changeformer-'' s)"

definition regionStages :: "BackendPcbRegion list \<Rightarrow> BackendPcbRegion list \<Rightarrow> BackendPipelineStages" where
  \<comment> \<open>a pipeline whose defect-region and structural-drift stages report the given regions\<close>
  "regionStages pcbRegions changeformerRegions =
     emptyPipeline
       \<lparr> pcb_cd := Some \<lparr> pcb_summary = Some (BackendPcbSummary.truncate noSummary
                             \<lparr> summary_regions := Some pcbRegions \<rparr>),
                          pcb_imageSize = None \<rparr>,
         changeformer_cd := Some \<lparr> cf_summary = Some (noSummary \<lparr> summary_regions := Some changeformerRegions \<rparr>),
                                  cf_imageSize = None \<rparr> \<rparr>"

definition entryIds :: "(nat \<Rightarrow> string) \<Rightarrow> ComparisonMode \<Rightarrow> BackendTimelineEntry \<Rightarrow> string list" where
  \<comment> \<open>the ids of the changes one timeline entry contributes\<close>
  "entryIds loc mode entry = map change_id (entryChanges loc mode entry)"

definition regionIds :: "string \<Rightarrow> nat \<Rightarrow> BackendPcbRegion list \<Rightarrow> string list" where
  \<comment> \<open>\<^verbatim>\<open>region.id || `${prefix}${index}`\<close> over the regions, the first index being \<open>k\<close>\<close>
  "regionIds pfx k regions =
     map (\<lambda>(index, region). strOr (region_id region) (pfx @ showNat index)) (enumerate k regions)"

section \<open>Properties of the CoordinateNormalizer\<close>

lemma imageWidth_nonzero: "imageWidth imageSize \<noteq> 0"
  by (simp add: imageWidth_def numOr_def split: option.splits)

lemma imageHeight_nonzero: "imageHeight imageSize \<noteq> 0"
  by (simp add: imageHeight_def numOr_def split: option.splits)

text \<open>
  C8 (as amended). For an image size whose width and height are not zero, the \<^verbatim>\<open>xyxy\<close>
  format divides the x coordinates by the width and the y coordinates by the height; the
  \<^verbatim>\<open>yxyx\<close> format swaps rows and columns first and then scales the same way. The result is
  the plain quotient: nothing clamps it to the unit square or orders its corners. In JavaScript
  arithmetic the four values are the quotients themselves.
\<close>

theorem normalizeBox_scales:
  assumes "w \<noteq> 0" and "h \<noteq> 0"
  shows "normalizeBox (Some (b0, b1, b2, b3)) (Some \<lparr>width = w, height = h\<rparr>) XYXY
           = (b0 / w, b1 / h, b2 / w, b3 / h)
       \<and> normalizeBox (Some (b0, b1, b2, b3)) (Some \<lparr>width = w, height = h\<rparr>) YXYX
           = (b1 / w, b0 / h, b3 / w, b2 / h)
       \<and> normalizeBox (Some (b0, b1, b2, b3)) (Some \<lparr>width = w, height = h\<rparr>) YXYX
           = normalizeBox (Some (b1, b0, b3, b2)) (Some \<lparr>width = w, height = h\<rparr>) XYXY
       \<and> finiteBox (normalizeBox (Some (b0, b1, b2, b3)) (Some \<lparr>width = w, height = h\<rparr>) XYXY)
           = (jsDivide b0 w, jsDivide b1 h, jsDivide b2 w, jsDivide b3 h)
       \<and> finiteBox (normalizeBox (Some (b0, b1, b2, b3)) (Some \<lparr>width = w, height = h\<rparr>) YXYX)
           = (jsDivide b1 w, jsDivide b0 h, jsDivide b3 w, jsDivide b2 h)"
  using assms
  by (simp add: normalizeBox_def imageWidth_def imageHeight_def numOr_def finiteBox_def jsDivide_def)

text \<open>
  The box \<open>[5, 4, 1, 0]\<close> on a 2 by 4 image: the output leaves the unit square and its
  corners stay inverted.
\<close>

theorem normalizeBox_scales_witness:
  "normalizeBox (Some (5, 4, 1, 0)) (Some \<lparr>width = 2, height = 4\<rparr>) XYXY = (5 / 2, 1, 1 / 2, 0)
   \<and> normalizeBox (Some (5, 4, 1, 0)) (Some \<lparr>width = 2, height = 4\<rparr>) YXYX = (2, 5 / 4, 0, 1 / 4)"
  using normalizeBox_scales [of 2 4 5 4 1 0] by simp

text \<open>
  C8 as stated quantifies over every image size. With width 0 the code divides by 1, so the
  box \<open>[1, 1, 1, 1]\<close> keeps its x coordinates, while the quotient \<open>1 / 0\<close> is infinite.
\<close>

theorem normalizeBox_zero_width_counterexample:
  "finiteBox (normalizeBox (Some (1, 1, 1, 1)) (Some \<lparr>width = 0, height = 1\<rparr>) XYXY)
     \<noteq> (jsDivide 1 0, jsDivide 1 1, jsDivide 1 0, jsDivide 1 1)"
  by (simp add: normalizeBox_def imageWidth_def imageHeight_def numOr_def finiteBox_def jsDivide_def)

text \<open>
  C10. The normalizer never divides by zero: the divisors \<open>imageWidth\<close> and \<open>imageHeight\<close>
  are never zero, because a missing image size and a dimension equal to 0 both count as 1. A
  missing box gives \<open>[0, 0, 0, 0]\<close>. Every other input gives four quotients by those
  divisors, which are finite numbers in JavaScript arithmetic.
\<close>

theorem normalizeBox_total:
  "imageWidth imageSize \<noteq> 0 \<and> imageHeight imageSize \<noteq> 0
   \<and> imageWidth None = 1 \<and> imageHeight None = 1
   \<and> imageWidth (Some \<lparr>width = 0, height = h\<rparr>) = 1
   \<and> imageHeight (Some \<lparr>width = w, height = 0\<rparr>) = 1
   \<and> normalizeBox None imageSize format = (0, 0, 0, 0)
   \<and> normalizeBox (Some (a, b, c, d)) imageSize XYXY
        = (a / imageWidth imageSize, b / imageHeight imageSize,
           c / imageWidth imageSize, d / imageHeight imageSize)
   \<and> normalizeBox (Some (a, b, c, d)) imageSize YXYX
        = (b / imageWidth imageSize, a / imageHeight imageSize,
           d / imageWidth imageSize, c / imageHeight imageSize)
   \<and> jsDivide x (imageWidth imageSize) = Finite (x / imageWidth imageSize)
   \<and> jsDivide x (imageHeight imageSize) = Finite (x / imageHeight imageSize)"
  using imageWidth_nonzero [of imageSize] imageHeight_nonzero [of imageSize]
  by (simp add: normalizeBox_def jsDivide_def Let_def)
    (simp add: imageWidth_def imageHeight_def numOr_def)

section \<open>Properties of the change builders\<close>

subsection \<open>Indexed maps\<close>

lemma length_mapIndexed [simp]: "length (mapIndexed f xs) = length xs"
  by (simp add: mapIndexed_def)

lemma nth_mapIndexed: "i < length xs \<Longrightarrow> mapIndexed f xs ! i = f i (xs ! i)"
  by (simp add: mapIndexed_def nth_enumerate_eq)

lemma mapIndexed_Nil [simp]: "mapIndexed f [] = []"
  by (simp add: mapIndexed_def)

lemma in_set_mapIndexed: "c \<in> set (mapIndexed f xs) \<longleftrightarrow> (\<exists>i<length xs. c = f i (xs ! i))"
  by (metis in_set_conv_nth length_mapIndexed nth_mapIndexed)




subsection \<open>Mask/segmentation builder\<close>




subsection \<open>Defect-region builder\<close>





subsection \<open>Structural-drift builder\<close>

lemma ulpDown_pos: "0 < u \<Longrightarrow> 0 < ulpDown n u x"
  by (induction n u x rule: ulpDown.induct) simp_all

lemma ulpUp_pos: "0 < u \<Longrightarrow> 0 < ulpUp n u x"
  by (induction n u x rule: ulpUp.induct) simp_all

lemma ulpOf_pos: "0 < ulpOf x"
  by (simp add: ulpOf_def ulpDown_pos ulpUp_pos)

lemma roundHalfEven_nonneg: "0 \<le> y \<Longrightarrow> 0 \<le> roundHalfEven y"
  by (simp add: roundHalfEven_def Let_def)

lemma toDouble_nonneg: "0 \<le> x \<Longrightarrow> 0 \<le> toDouble x"
  using ulpOf_pos [of "\<bar>x\<bar>"]
  by (simp add: toDouble_def Let_def roundHalfEven_nonneg)

lemma doubleProduct_nonneg: "0 \<le> x \<Longrightarrow> 0 \<le> y \<Longrightarrow> 0 \<le> doubleProduct x y"
  by (simp add: doubleProduct_def toDouble_nonneg)

text \<open>
  Below \<open>2^53\<close> the spacing is found by halving: it is \<open>2^-k\<close> for the \<open>k\<close> that brings \<open>x\<close>
  between \<open>2^52\<close> and \<open>2^53\<close>. This gives the double of a number without running the search.
\<close>

lemma ulpDown_exact:
  assumes "2 ^ 52 \<le> x * 2 ^ k" and "x * 2 ^ k < 2 ^ 53" and "j \<le> k" and "k \<le> j + n"
  shows "ulpDown n (1 / 2 ^ j) x = 1 / 2 ^ k"
  using assms
proof (induction n arbitrary: j)
  case 0
  then have "j = k" by simp
  then show ?case by simp
next
  case (Suc n)
  show ?case
  proof (cases "j = k")
    case True
    with Suc.prems show ?thesis by simp
  next
    case False
    with Suc.prems have less: "j < k" by simp
    then obtain d where k: "k = Suc (j + d)"
      using less_iff_Suc_add by auto
    have "0 < x"
      using Suc.prems(1) by (smt (verit) mult_nonpos_nonneg zero_less_power zero_le_power)
    have "x * 2 ^ j * 2 \<le> x * 2 ^ k"
      unfolding k using \<open>0 < x\<close> by (simp add: power_add)
    with Suc.prems(2) have "x * 2 ^ j < 2 ^ 52"
      by simp
    moreover have "ulpDown n (1 / 2 ^ Suc j) x = 1 / 2 ^ k"
      using Suc.prems less by (intro Suc.IH) simp_all
    ultimately show ?thesis
      by (simp add: mult.commute)
  qed
qed

lemma toDouble_normal:
  assumes "2 ^ 52 \<le> x * 2 ^ k" and "x * 2 ^ k < 2 ^ 53" and "k \<le> 1074"
  shows "toDouble x = of_int (roundHalfEven (x * 2 ^ k)) / 2 ^ k"
proof -
  have pos: "0 < x"
    using assms(1) by (smt (verit) mult_nonpos_nonneg zero_less_power zero_le_power)
  have "x \<le> x * 2 ^ k"
    using pos by (simp add: mult_le_cancel_left1)
  with assms(2) have "x < 2 ^ 53"
    by simp
  moreover have "ulpDown 1074 (1 / 2 ^ 0) x = 1 / 2 ^ k"
    using assms by (intro ulpDown_exact) simp_all
  ultimately have "ulpOf x = 1 / 2 ^ k"
    by (simp add: ulpOf_def)
  with pos show ?thesis
    by (simp add: toDouble_def Let_def)
qed

text \<open>
  The doubles of four coverages and of their products with 100. The products of 0.03005 and
  0.01005 fall just below 3.005 and 1.005.
\<close>

lemma double_0_004:
  "toDouble 0.004 = 1152921504606847 / 288230376151711744"
  "doubleProduct (1152921504606847 / 288230376151711744) 100 = 3602879701896397 / 9007199254740992"
  unfolding doubleProduct_def
  by (subst toDouble_normal [where k = 60], simp_all add: roundHalfEven_def Let_def)
    (subst toDouble_normal [where k = 54], simp_all add: roundHalfEven_def Let_def)

lemma double_0_03004:
  "toDouble 0.03004 = 8658440499597421 / 288230376151711744"
  "doubleProduct (8658440499597421 / 288230376151711744) 100 = 6764406640310485 / 2251799813685248"
  unfolding doubleProduct_def
  by (subst toDouble_normal [where k = 58], simp_all add: roundHalfEven_def Let_def)
    (subst toDouble_normal [where k = 51], simp_all add: roundHalfEven_def Let_def)

lemma double_0_03005:
  "toDouble 0.03005 = 4330661401679469 / 144115188075855872"
  "doubleProduct (4330661401679469 / 144115188075855872) 100 = 3383329220062085 / 1125899906842624"
  unfolding doubleProduct_def
  by (subst toDouble_normal [where k = 58], simp_all add: roundHalfEven_def Let_def)
    (subst toDouble_normal [where k = 51], simp_all add: roundHalfEven_def Let_def)

lemma double_0_01005:
  "toDouble 0.01005 = 2896715280324703 / 288230376151711744"
  "doubleProduct (2896715280324703 / 288230376151711744) 100 = 1131529406376837 / 1125899906842624"
  unfolding doubleProduct_def
  by (subst toDouble_normal [where k = 59], simp_all add: roundHalfEven_def Let_def)
    (subst toDouble_normal [where k = 52], simp_all add: roundHalfEven_def Let_def)

lemma coverageUnits_pos:
  assumes "summary_coverage summary = Some c" and "0 < c"
  shows "int (coverageUnits summary) = roundHalfUp (doubleProduct c 100 * 100)"
proof -
  have "0 \<le> doubleProduct c 100"
    using assms(2) by (simp add: doubleProduct_nonneg)
  then have "0 \<le> \<lfloor>doubleProduct c 100 * 100 + 1 / 2\<rfloor>"
    and "\<bar>doubleProduct c 100\<bar> = doubleProduct c 100"
    by simp_all
  with assms show ?thesis
    by (simp add: coverageUnits_def fixedUnits_def roundHalfUp_def nullish_def)
qed

lemma coveragePct_thresholds:
  assumes "summary_coverage summary = Some c" and "0 < c"
  shows "coveragePct summary = real_of_int (roundHalfUp (doubleProduct c 100 * 100)) / 100"
    and "coveragePct summary > 3 \<longleftrightarrow> 3.005 \<le> doubleProduct c 100"
    and "coveragePct summary > 1 \<longleftrightarrow> 1.005 \<le> doubleProduct c 100"
proof -
  let ?v = "doubleProduct c 100"
  from assms have "int (coverageUnits summary) = roundHalfUp (?v * 100)"
    by (rule coverageUnits_pos)
  then show pct: "coveragePct summary = real_of_int (roundHalfUp (?v * 100)) / 100"
    unfolding coveragePct_def by (metis of_int_of_nat_eq)
  have "coveragePct summary > 3 \<longleftrightarrow> 301 \<le> roundHalfUp (?v * 100)"
    unfolding pct by (simp add: less_divide_eq) linarith
  also have "\<dots> \<longleftrightarrow> 3.005 \<le> ?v"
    unfolding roundHalfUp_def le_floor_iff by auto
  finally show "coveragePct summary > 3 \<longleftrightarrow> 3.005 \<le> ?v" .
  have "coveragePct summary > 1 \<longleftrightarrow> 101 \<le> roundHalfUp (?v * 100)"
    unfolding pct by (simp add: less_divide_eq) linarith
  also have "\<dots> \<longleftrightarrow> 1.005 \<le> ?v"
    unfolding roundHalfUp_def le_floor_iff by auto
  finally show "coveragePct summary > 1 \<longleftrightarrow> 1.005 \<le> ?v" .
qed

lemma aggregate_impacts:
  assumes "summary_coverage summary = Some c" and "0 < c" and "nullish (summary_regions summary) [] = []"
  shows "map change_impact (createChangeformerChanges (Some summary) imageSize)
     = [if 3.005 \<le> doubleProduct c 100 then High
        else if 1.005 \<le> doubleProduct c 100 then Medium else Low]"
proof -
  from assms have "createChangeformerChanges (Some summary) imageSize = [aggregateChange summary]"
    by (simp add: createChangeformerChanges_def Let_def nullish_def)
  moreover have "change_impact (aggregateChange summary)
      = (if coveragePct summary > 3 then High else if coveragePct summary > 1 then Medium else Low)"
    by (simp add: aggregateChange_def Let_def)
  ultimately show ?thesis
    using coveragePct_thresholds(2,3) [OF assms(1,2)] by simp
qed

text \<open>
  C6 (as amended). For a summary without regions: a coverage that is absent, zero or
  negative yields no change; a positive coverage \<open>c\<close> yields exactly the aggregate change,
  with id \<open>changeformer-aggregate\<close> and the full-frame box. Its impact is decided on
  \<open>coveragePct\<close>, the double product of the coverage and 100 rounded to two decimals: High
  above 3, Medium above 1, Low otherwise. On the product itself the impact is High from
  3.005 on and Low below 1.005.
\<close>

theorem createChangeformerChanges_aggregate:
  assumes "nullish (summary_regions summary) [] = []"
  shows "(nullish (summary_coverage summary) 0 \<le> 0
            \<longrightarrow> createChangeformerChanges (Some summary) imageSize = [])
       \<and> (\<forall>c. summary_coverage summary = Some c \<and> 0 < c \<longrightarrow>
            createChangeformerChanges (Some summary) imageSize = [aggregateChange summary]
          \<and> change_id (aggregateChange summary) = ''changeformer-aggregate''
          \<and> change_box (aggregateChange summary) = (0, 0, 1, 1)
          \<and> coveragePct summary = real_of_int (roundHalfUp (doubleProduct c 100 * 100)) / 100
          \<and> change_impact (aggregateChange summary)
              = (if coveragePct summary > 3 then High
                 else if coveragePct summary > 1 then Medium else Low)
          \<and> (change_impact (aggregateChange summary) = High \<longleftrightarrow> 3.005 \<le> doubleProduct c 100)
          \<and> (change_impact (aggregateChange summary) = Low \<longleftrightarrow> doubleProduct c 100 < 1.005))"
proof (intro conjI allI impI)
  assume "nullish (summary_coverage summary) 0 \<le> 0"
  with assms show "createChangeformerChanges (Some summary) imageSize = []"
    by (simp add: createChangeformerChanges_def Let_def)
next
  fix c assume c: "summary_coverage summary = Some c \<and> 0 < c"
  let ?v = "doubleProduct c 100"
  from c have coverage: "summary_coverage summary = Some c" and pos: "0 < c"
    by simp_all
  note hi = coveragePct_thresholds(2) [OF coverage pos]
  note mid = coveragePct_thresholds(3) [OF coverage pos]
  from c assms show "createChangeformerChanges (Some summary) imageSize = [aggregateChange summary]"
    by (simp add: createChangeformerChanges_def Let_def nullish_def)
  show "change_id (aggregateChange summary) = ''changeformer-aggregate''"
    and "change_box (aggregateChange summary) = (0, 0, 1, 1)"
    by (simp_all add: aggregateChange_def Let_def)
  show "coveragePct summary = real_of_int (roundHalfUp (?v * 100)) / 100"
    by (rule coveragePct_thresholds(1) [OF coverage pos])
  show imp: "change_impact (aggregateChange summary)
              = (if coveragePct summary > 3 then High
                 else if coveragePct summary > 1 then Medium else Low)"
    by (simp add: aggregateChange_def Let_def)
  show "change_impact (aggregateChange summary) = High \<longleftrightarrow> 3.005 \<le> ?v"
    unfolding imp hi mid by simp
  show "change_impact (aggregateChange summary) = Low \<longleftrightarrow> ?v < 1.005"
    unfolding imp hi mid by auto
qed

text \<open>
  Coverage 0.004 (its double) without regions yields the aggregate change with impact
  Low and the full-frame box; coverage 0 yields nothing.
\<close>

theorem createChangeformerChanges_aggregate_witness:
  "createChangeformerChanges
      (Some (noSummary\<lparr>summary_coverage := Some (toDouble 0.004), summary_regions := Some []\<rparr>)) None
     = [aggregateChange (noSummary\<lparr>summary_coverage := Some (toDouble 0.004), summary_regions := Some []\<rparr>)]
   \<and> change_impact
        (aggregateChange (noSummary\<lparr>summary_coverage := Some (toDouble 0.004), summary_regions := Some []\<rparr>))
       = Low
   \<and> change_box
        (aggregateChange (noSummary\<lparr>summary_coverage := Some (toDouble 0.004), summary_regions := Some []\<rparr>))
       = (0, 0, 1, 1)
   \<and> createChangeformerChanges (Some (noSummary\<lparr>summary_coverage := Some 0\<rparr>)) None = []"
proof -
  let ?s = "noSummary\<lparr>summary_coverage := Some (toDouble 0.004), summary_regions := Some []\<rparr>"
  let ?z = "noSummary\<lparr>summary_coverage := Some 0\<rparr>"
  have regions: "nullish (summary_regions ?s) [] = []" "nullish (summary_regions ?z) [] = []"
    by (simp_all add: nullish_def noSummary_def)
  have "(0::real) < toDouble 0.004"
    unfolding double_0_004 by simp
  then have coverage: "summary_coverage ?s = Some (toDouble 0.004) \<and> (0::real) < toDouble 0.004"
    by (simp del: divide_pos_pos)
  have none: "nullish (summary_coverage ?z) 0 \<le> 0"
    by (simp add: nullish_def)
  note agg = createChangeformerChanges_aggregate
      [OF regions(1), where imageSize = None, THEN conjunct2, rule_format, OF coverage]
  from agg have "change_impact (aggregateChange ?s) = Low \<longleftrightarrow> doubleProduct (toDouble 0.004) 100 < 1.005"
    by blast
  then have low: "change_impact (aggregateChange ?s) = Low"
    unfolding double_0_004 by simp
  from agg have "createChangeformerChanges (Some ?s) None = [aggregateChange ?s]"
    and "change_box (aggregateChange ?s) = (0, 0, 1, 1)"
    by blast+
  with low have one: "createChangeformerChanges (Some ?s) None = [aggregateChange ?s]
        \<and> change_impact (aggregateChange ?s) = Low
        \<and> change_box (aggregateChange ?s) = (0, 0, 1, 1)"
    by blast
  have two: "createChangeformerChanges (Some ?z) None = []"
    using createChangeformerChanges_aggregate
      [OF regions(2), where imageSize = None, THEN conjunct1, rule_format, OF none] .
  from one two show ?thesis by blast
qed

text \<open>
  C6 as stated compares the coverage percentage with 3. A coverage of 0.03004 is 3.004
  percent, above 3, but it is rounded to 3.00 first and the impact is Medium.
\<close>

theorem createChangeformerChanges_rounding_counterexample:
  "(3::real) < toDouble 0.03004 * 100
   \<and> map change_impact
        (createChangeformerChanges
           (Some (noSummary\<lparr>summary_coverage := Some (toDouble 0.03004), summary_regions := Some []\<rparr>)) None)
      = [Medium]"
proof -
  let ?s = "noSummary\<lparr>summary_coverage := Some (toDouble 0.03004), summary_regions := Some []\<rparr>"
  have "0 < toDouble 0.03004" and above: "(3::real) < toDouble 0.03004 * 100"
    unfolding double_0_03004 by simp_all
  moreover have "summary_coverage ?s = Some (toDouble 0.03004)"
    and "nullish (summary_regions ?s) [] = []"
    by (simp_all add: nullish_def)
  ultimately have "map change_impact (createChangeformerChanges (Some ?s) None)
     = [if 3.005 \<le> doubleProduct (toDouble 0.03004) 100 then High
        else if 1.005 \<le> doubleProduct (toDouble 0.03004) 100 then Medium else Low]"
    by (intro aggregate_impacts)
  also have "\<dots> = [Medium]"
    unfolding double_0_03004 by simp
  finally show ?thesis
    using above by blast
qed

text \<open>
  The coverages 0.03005 and 0.01005 do not reach the next tier either: their products with
  100 are the doubles just below 3.005 and 1.005, which round to 3.00 and 1.00.
\<close>

lemma aggregate_at_the_decimal_thresholds:
  "map change_impact
     (createChangeformerChanges
        (Some (noSummary\<lparr>summary_coverage := Some (toDouble 0.03005), summary_regions := Some []\<rparr>)) None)
     = [Medium]
   \<and> map change_impact
     (createChangeformerChanges
        (Some (noSummary\<lparr>summary_coverage := Some (toDouble 0.01005), summary_regions := Some []\<rparr>)) None)
     = [Low]"
proof -
  let ?a = "noSummary\<lparr>summary_coverage := Some (toDouble 0.03005), summary_regions := Some []\<rparr>"
  let ?b = "noSummary\<lparr>summary_coverage := Some (toDouble 0.01005), summary_regions := Some []\<rparr>"
  have pos: "0 < toDouble 0.03005" "0 < toDouble 0.01005"
    unfolding double_0_03005 double_0_01005 by simp_all
  have a: "summary_coverage ?a = Some (toDouble 0.03005)" "nullish (summary_regions ?a) [] = []"
    and b: "summary_coverage ?b = Some (toDouble 0.01005)" "nullish (summary_regions ?b) [] = []"
    by (simp_all add: nullish_def)
  have "map change_impact (createChangeformerChanges (Some ?a) None)
     = [if 3.005 \<le> doubleProduct (toDouble 0.03005) 100 then High
        else if 1.005 \<le> doubleProduct (toDouble 0.03005) 100 then Medium else Low]"
    using a(1) pos(1) a(2) by (rule aggregate_impacts)
  also have "\<dots> = [Medium]"
    unfolding double_0_03005 by simp
  finally have first: "map change_impact (createChangeformerChanges (Some ?a) None) = [Medium]" .
  have "map change_impact (createChangeformerChanges (Some ?b) None)
     = [if 3.005 \<le> doubleProduct (toDouble 0.01005) 100 then High
        else if 1.005 \<le> doubleProduct (toDouble 0.01005) 100 then Medium else Low]"
    using b(1) pos(2) b(2) by (rule aggregate_impacts)
  also have "\<dots> = [Low]"
    unfolding double_0_01005 by simp
  finally have second: "map change_impact (createChangeformerChanges (Some ?b) None) = [Low]" .
  from first second show ?thesis by blast
qed

section \<open>Properties of the assembler\<close>

subsection \<open>Incomplete jobs\<close>

text \<open>
  C3. When the orchestrator answers with a job whose status is not \<open>completed\<close>, the
  analysis ends in an error and no result: the outcome is an \<open>Inl\<close>, the assembly step is
  never announced, and once two frames were given and the response was accepted the error is
  the job's own message, or the default text.
\<close>

theorem analyzeWithBackend_incomplete_job:
  assumes "backend (formData imageFiles domain comparisonMode) = Some response"
    and "response_json response = Some job"
    and "job_status job \<noteq> ''completed''"
  shows "(\<exists>e. snd (analyzeWithBackend loc backend imageFiles domain comparisonMode) = Inl e)
       \<and> (90, ''Synthesizing engineering brief...'')
            \<notin> set (fst (analyzeWithBackend loc backend imageFiles domain comparisonMode))
       \<and> (2 \<le> length imageFiles \<and> response_ok response \<longrightarrow>
            snd (analyzeWithBackend loc backend imageFiles domain comparisonMode)
              = Inl (Error (strOr (Option.bind (job_error job) error_message)
                              ''Analysis job failed on the backend.'')))"
  using assms by (simp add: analyzeWithBackend_def Let_def)

text \<open>A job with status \<open>failed\<close> and no error payload.\<close>

theorem analyzeWithBackend_incomplete_job_witness:
  "snd (analyzeWithBackend showNat (answers (noJob\<lparr>job_status := ''failed''\<rparr>))
          [frameFile ''a.png'', frameFile ''b.png''] F1 Consecutive)
     = Inl (Error ''Analysis job failed on the backend.'')
   \<and> (90, ''Synthesizing engineering brief...'')
        \<notin> set (fst (analyzeWithBackend showNat (answers (noJob\<lparr>job_status := ''failed''\<rparr>))
                       [frameFile ''a.png'', frameFile ''b.png''] F1 Consecutive))"
proof -
  let ?job = "noJob\<lparr>job_status := ''failed''\<rparr>"
  let ?files = "[frameFile ''a.png'', frameFile ''b.png'']"
  let ?response = "\<lparr> response_ok = True, response_text = [], response_json = Some ?job \<rparr>"
  have answer: "answers ?job (formData ?files F1 Consecutive) = Some ?response"
    by (simp add: answers_def)
  have json: "response_json ?response = Some ?job"
    by simp
  have status: "job_status ?job \<noteq> ''completed''"
    by simp
  have enough: "2 \<le> length ?files \<and> response_ok ?response"
    by simp
  have message: "strOr (Option.bind (job_error ?job) error_message) ''Analysis job failed on the backend.''
      = ''Analysis job failed on the backend.''"
    by (simp add: strOr_def noJob_def)
  from analyzeWithBackend_incomplete_job
      [where backend = "answers ?job" and imageFiles = ?files and domain = F1
         and comparisonMode = Consecutive and response = ?response and job = ?job and loc = showNat,
       OF answer json status]
    enough message
  show ?thesis by simp
qed

text \<open>Conversely, a result only ever comes from a completed job.\<close>

lemma analyzeWithBackend_result_only_if_completed:
  assumes "snd (analyzeWithBackend loc backend imageFiles domain comparisonMode) = Inr r"
  shows "\<exists>response job. backend (formData imageFiles domain comparisonMode) = Some response
            \<and> response_json response = Some job \<and> job_status job = ''completed''
            \<and> r = assembleAnalysisResult loc job domain"
  using assms by (auto simp: analyzeWithBackend_def Let_def split: if_splits option.splits)

subsection \<open>The fallback rule\<close>

lemma collectTimelineChanges_pipeline:
  "collectTimelineChanges loc (job\<lparr>job_pipeline := p\<rparr>) = collectTimelineChanges loc job"
  by (simp add: collectTimelineChanges_def split: option.splits)

lemma labelled_have_ref:
  "c \<in> set (labelTimelineChanges cs a b m pfx) \<Longrightarrow> change_comparisonRef c \<noteq> None"
  by (auto simp: labelTimelineChanges_def Let_def in_set_mapIndexed)

lemma entryChanges_have_ref:
  assumes "c \<in> set (entryChanges loc mode entry)"
  shows "change_comparisonRef c \<noteq> None"
proof (cases "entry_pipeline entry")
  case None
  with assms show ?thesis
    by (simp add: entryChanges_def)
next
  case (Some p)
  with assms have "\<exists>cs a b pfx. c \<in> set (labelTimelineChanges cs a b mode pfx)"
    unfolding entryChanges_def by (simp add: Let_def) blast
  then show ?thesis
    using labelled_have_ref by blast
qed

lemma timeline_changes_have_ref:
  "c \<in> set (collectTimelineChanges loc job) \<Longrightarrow> change_comparisonRef c \<noteq> None"
  by (auto simp: collectTimelineChanges_def split: option.splits if_splits dest: entryChanges_have_ref)

lemma pcb_changes_have_no_ref:
  assumes "c \<in> set (createPcbChanges loc regions sz)"
  shows "change_comparisonRef c = None"
proof -
  from assms obtain i where "c = pcbChange loc sz i (regions ! i)"
    unfolding createPcbChanges_def in_set_mapIndexed by blast
  then show ?thesis
    by (simp add: pcbChange_def Let_def)
qed

lemma yolo_changes_have_no_ref:
  assumes "c \<in> set (createYoloChanges pairs sz)"
  shows "change_comparisonRef c = None"
proof -
  from assms obtain i where "c = yoloChange sz i (pairs ! i)"
    unfolding createYoloChanges_def in_set_mapIndexed by blast
  then show ?thesis
    by (simp add: yoloChange_def Let_def)
qed

lemma mask_changes_have_no_ref:
  assumes "c \<in> set (createMaskChanges dets sz)"
  shows "change_comparisonRef c = None"
proof -
  from assms obtain i where "c = maskChange sz i (filter keepsDetection dets ! i)"
    unfolding createMaskChanges_def in_set_mapIndexed by blast
  then show ?thesis
    by (simp add: maskChange_def Let_def)
qed

lemma changeformer_changes_have_no_ref:
  assumes "c \<in> set (createChangeformerChanges summaryOpt sz)"
  shows "change_comparisonRef c = None"
proof (cases summaryOpt)
  case None
  with assms show ?thesis
    by (simp add: createChangeformerChanges_def)
next
  case (Some summary)
  show ?thesis
  proof (cases "nullish (summary_regions summary) [] = []")
    case True
    with assms Some have "c = aggregateChange summary"
      by (simp add: createChangeformerChanges_def Let_def split: if_splits)
    then show ?thesis
      by (simp add: aggregateChange_def Let_def)
  next
    case False
    with assms Some obtain i
      where "c = changeformerRegionChange summary sz i (nullish (summary_regions summary) [] ! i)"
      by (auto simp: createChangeformerChanges_def Let_def in_set_mapIndexed)
    then show ?thesis
      by (simp add: changeformerRegionChange_def Let_def)
  qed
qed

lemma fallback_changes_have_no_ref:
  "c \<in> set (fallbackChanges loc job) \<Longrightarrow> change_comparisonRef c = None"
  using pcb_changes_have_no_ref yolo_changes_have_no_ref mask_changes_have_no_ref
    changeformer_changes_have_no_ref
  by (auto simp: fallbackChanges_def Let_def)

lemma jobPipeline_absent: "job_pipeline job = None \<Longrightarrow> fallbackChanges loc job = []"
  by (simp add: fallbackChanges_def jobPipeline_def emptyPipeline_def nullish_def Let_def yoloPairsOf_def
        maskDetectionsOf_def pcbRegionsOf_def changeformerSummaryOf_def createPcbChanges_def
        createYoloChanges_def createMaskChanges_def createChangeformerChanges_def mapIndexed_def)

lemma fallbackChanges_reads:
  assumes "job_pipeline job = Some p"
  shows "fallbackChanges loc job
    = createPcbChanges loc
        (case pcb_cd p of
           None \<Rightarrow> []
         | Some stage \<Rightarrow>
             (case pcb_summary stage of
                None \<Rightarrow> []
              | Some summary \<Rightarrow> (case summary_regions summary of None \<Rightarrow> [] | Some regions \<Rightarrow> regions)))
        (case pcb_cd p of None \<Rightarrow> None | Some stage \<Rightarrow> pcb_imageSize stage)
      @ createYoloChanges
        (case object_diff p of
           None \<Rightarrow> []
         | Some stage \<Rightarrow>
             (case (case od_report stage of None \<Rightarrow> None | Some report \<Rightarrow> od_paired report) of
                Some pairs \<Rightarrow> pairs
              | None \<Rightarrow>
                  (case od_summary stage of
                     None \<Rightarrow> []
                   | Some summary \<Rightarrow> (case od_paired summary of None \<Rightarrow> [] | Some pairs \<Rightarrow> pairs))))
        (case object_diff p of None \<Rightarrow> None | Some stage \<Rightarrow> od_imageSize stage)
      @ createMaskChanges
        (case mask_rcnn p of
           None \<Rightarrow> []
         | Some stage \<Rightarrow>
             (case mask_summary stage of
                None \<Rightarrow> []
              | Some summary \<Rightarrow> (case mask_detections summary of None \<Rightarrow> [] | Some dets \<Rightarrow> dets)))
        (case mask_rcnn p of None \<Rightarrow> None | Some stage \<Rightarrow> mask_imageSize stage)
      @ createChangeformerChanges
        (case changeformer_cd p of None \<Rightarrow> None | Some stage \<Rightarrow> cf_summary stage)
        (case changeformer_cd p of None \<Rightarrow> None | Some stage \<Rightarrow> cf_imageSize stage)"
proof -
  have pcb: "pcbRegionsOf p =
        (case pcb_cd p of
           None \<Rightarrow> []
         | Some stage \<Rightarrow>
             (case pcb_summary stage of
                None \<Rightarrow> []
              | Some summary \<Rightarrow> (case summary_regions summary of None \<Rightarrow> [] | Some regions \<Rightarrow> regions)))"
    by (simp add: pcbRegionsOf_def nullish_def split: option.splits)
  have yolo: "yoloPairsOf p =
        (case object_diff p of
           None \<Rightarrow> []
         | Some stage \<Rightarrow>
             (case (case od_report stage of None \<Rightarrow> None | Some report \<Rightarrow> od_paired report) of
                Some pairs \<Rightarrow> pairs
              | None \<Rightarrow>
                  (case od_summary stage of
                     None \<Rightarrow> []
                   | Some summary \<Rightarrow> (case od_paired summary of None \<Rightarrow> [] | Some pairs \<Rightarrow> pairs))))"
    by (simp add: yoloPairsOf_def nullish_def split: option.splits)
  have mask: "maskDetectionsOf p =
        (case mask_rcnn p of
           None \<Rightarrow> []
         | Some stage \<Rightarrow>
             (case mask_summary stage of
                None \<Rightarrow> []
              | Some summary \<Rightarrow> (case mask_detections summary of None \<Rightarrow> [] | Some dets \<Rightarrow> dets)))"
    by (simp add: maskDetectionsOf_def nullish_def split: option.splits)
  have cf: "changeformerSummaryOf p
      = (case changeformer_cd p of None \<Rightarrow> None | Some stage \<Rightarrow> cf_summary stage)"
    by (simp add: changeformerSummaryOf_def split: option.splits)
  have sizes: "Option.bind (pcb_cd p) pcb_imageSize
        = (case pcb_cd p of None \<Rightarrow> None | Some stage \<Rightarrow> pcb_imageSize stage)"
      "Option.bind (object_diff p) od_imageSize
        = (case object_diff p of None \<Rightarrow> None | Some stage \<Rightarrow> od_imageSize stage)"
      "Option.bind (mask_rcnn p) mask_imageSize
        = (case mask_rcnn p of None \<Rightarrow> None | Some stage \<Rightarrow> mask_imageSize stage)"
      "Option.bind (changeformer_cd p) cf_imageSize
        = (case changeformer_cd p of None \<Rightarrow> None | Some stage \<Rightarrow> cf_imageSize stage)"
    by (simp_all split: option.splits)
  from assms have "jobPipeline job = p"
    by (simp add: jobPipeline_def nullish_def)
  then have "fallbackChanges loc job
    = createPcbChanges loc (pcbRegionsOf p) (Option.bind (pcb_cd p) pcb_imageSize)
      @ createYoloChanges (yoloPairsOf p) (Option.bind (object_diff p) od_imageSize)
      @ createMaskChanges (maskDetectionsOf p) (Option.bind (mask_rcnn p) mask_imageSize)
      @ createChangeformerChanges (changeformerSummaryOf p) (Option.bind (changeformer_cd p) cf_imageSize)"
    by (simp add: fallbackChanges_def Let_def)
  then show ?thesis
    unfolding pcb yolo mask cf sizes .
qed

text \<open>
  C7. When the timeline yields no change, the changes of the result are built from the
  job-level pipeline alone: none when the job has no pipeline, and otherwise the changes of
  the four builders, in the order defect regions, object pairs, segmentation detections,
  structural drift, each builder run on what the job-level stage of its detector holds
  (the regions of the defect summary; the pairs of the object-diff report or, without
  them, of its summary; the detections of the segmentation summary; the structural-drift
  summary) together with the image size of that stage, an absent stage or field giving the
  builder no input. None of these changes refers to a comparison. When the timeline yields a
  change, the changes of the result are the timeline's: each of them refers to its
  comparison, and the job-level pipeline has no influence on them, since replacing it by any
  other leaves them as they are.
\<close>

theorem assemble_fallback_rule:
  "(collectTimelineChanges loc job = [] \<longrightarrow>
      (job_pipeline job = None \<longrightarrow> result_changes (assembleAnalysisResult loc job domain) = [])
      \<and> (\<forall>p. job_pipeline job = Some p \<longrightarrow>
            result_changes (assembleAnalysisResult loc job domain)
              = createPcbChanges loc
                  (case pcb_cd p of
                     None \<Rightarrow> []
                   | Some stage \<Rightarrow>
                       (case pcb_summary stage of
                          None \<Rightarrow> []
                        | Some summary \<Rightarrow>
                            (case summary_regions summary of None \<Rightarrow> [] | Some regions \<Rightarrow> regions)))
                  (case pcb_cd p of None \<Rightarrow> None | Some stage \<Rightarrow> pcb_imageSize stage)
                @ createYoloChanges
                  (case object_diff p of
                     None \<Rightarrow> []
                   | Some stage \<Rightarrow>
                       (case (case od_report stage of None \<Rightarrow> None | Some report \<Rightarrow> od_paired report) of
                          Some pairs \<Rightarrow> pairs
                        | None \<Rightarrow>
                            (case od_summary stage of
                               None \<Rightarrow> []
                             | Some summary \<Rightarrow>
                                 (case od_paired summary of None \<Rightarrow> [] | Some pairs \<Rightarrow> pairs))))
                  (case object_diff p of None \<Rightarrow> None | Some stage \<Rightarrow> od_imageSize stage)
                @ createMaskChanges
                  (case mask_rcnn p of
                     None \<Rightarrow> []
                   | Some stage \<Rightarrow>
                       (case mask_summary stage of
                          None \<Rightarrow> []
                        | Some summary \<Rightarrow>
                            (case mask_detections summary of None \<Rightarrow> [] | Some dets \<Rightarrow> dets)))
                  (case mask_rcnn p of None \<Rightarrow> None | Some stage \<Rightarrow> mask_imageSize stage)
                @ createChangeformerChanges
                  (case changeformer_cd p of None \<Rightarrow> None | Some stage \<Rightarrow> cf_summary stage)
                  (case changeformer_cd p of None \<Rightarrow> None | Some stage \<Rightarrow> cf_imageSize stage))
      \<and> (\<forall>c \<in> set (result_changes (assembleAnalysisResult loc job domain)).
            change_comparisonRef c = None))
   \<and> (collectTimelineChanges loc job \<noteq> [] \<longrightarrow>
        result_changes (assembleAnalysisResult loc job domain) = collectTimelineChanges loc job
        \<and> (\<forall>c \<in> set (result_changes (assembleAnalysisResult loc job domain)).
              change_comparisonRef c \<noteq> None)
        \<and> (\<forall>p. result_changes (assembleAnalysisResult loc (job\<lparr>job_pipeline := p\<rparr>) domain)
                 = result_changes (assembleAnalysisResult loc job domain)))"
proof (rule conjI; rule impI)
  assume empty: "collectTimelineChanges loc job = []"
  then have changes: "result_changes (assembleAnalysisResult loc job domain) = fallbackChanges loc job"
    by (simp add: assembleAnalysisResult_def Let_def)
  have none: "job_pipeline job = None \<longrightarrow> result_changes (assembleAnalysisResult loc job domain) = []"
    unfolding changes by (simp add: jobPipeline_absent)
  have refs: "\<forall>c \<in> set (result_changes (assembleAnalysisResult loc job domain)).
            change_comparisonRef c = None"
    unfolding changes using fallback_changes_have_no_ref by blast
  show "(job_pipeline job = None \<longrightarrow> result_changes (assembleAnalysisResult loc job domain) = [])
      \<and> (\<forall>p. job_pipeline job = Some p \<longrightarrow>
            result_changes (assembleAnalysisResult loc job domain)
              = createPcbChanges loc
                  (case pcb_cd p of
                     None \<Rightarrow> []
                   | Some stage \<Rightarrow>
                       (case pcb_summary stage of
                          None \<Rightarrow> []
                        | Some summary \<Rightarrow>
                            (case summary_regions summary of None \<Rightarrow> [] | Some regions \<Rightarrow> regions)))
                  (case pcb_cd p of None \<Rightarrow> None | Some stage \<Rightarrow> pcb_imageSize stage)
                @ createYoloChanges
                  (case object_diff p of
                     None \<Rightarrow> []
                   | Some stage \<Rightarrow>
                       (case (case od_report stage of None \<Rightarrow> None | Some report \<Rightarrow> od_paired report) of
                          Some pairs \<Rightarrow> pairs
                        | None \<Rightarrow>
                            (case od_summary stage of
                               None \<Rightarrow> []
                             | Some summary \<Rightarrow>
                                 (case od_paired summary of None \<Rightarrow> [] | Some pairs \<Rightarrow> pairs))))
                  (case object_diff p of None \<Rightarrow> None | Some stage \<Rightarrow> od_imageSize stage)
                @ createMaskChanges
                  (case mask_rcnn p of
                     None \<Rightarrow> []
                   | Some stage \<Rightarrow>
                       (case mask_summary stage of
                          None \<Rightarrow> []
                        | Some summary \<Rightarrow>
                            (case mask_detections summary of None \<Rightarrow> [] | Some dets \<Rightarrow> dets)))
                  (case mask_rcnn p of None \<Rightarrow> None | Some stage \<Rightarrow> mask_imageSize stage)
                @ createChangeformerChanges
                  (case changeformer_cd p of None \<Rightarrow> None | Some stage \<Rightarrow> cf_summary stage)
                  (case changeformer_cd p of None \<Rightarrow> None | Some stage \<Rightarrow> cf_imageSize stage))
      \<and> (\<forall>c \<in> set (result_changes (assembleAnalysisResult loc job domain)).
            change_comparisonRef c = None)"
    unfolding changes [symmetric]
    using none refs fallbackChanges_reads [of job _ loc, folded changes] by blast
next
  assume nonempty: "collectTimelineChanges loc job \<noteq> []"
  then have changes: "result_changes (assembleAnalysisResult loc job domain)
      = collectTimelineChanges loc job"
    by (simp add: assembleAnalysisResult_def Let_def)
  have "\<forall>c \<in> set (result_changes (assembleAnalysisResult loc job domain)).
              change_comparisonRef c \<noteq> None"
    unfolding changes using timeline_changes_have_ref by blast
  moreover have "\<forall>p. result_changes (assembleAnalysisResult loc (job\<lparr>job_pipeline := p\<rparr>) domain)
                 = result_changes (assembleAnalysisResult loc job domain)"
    using nonempty
    by (simp add: assembleAnalysisResult_def Let_def collectTimelineChanges_pipeline)
  ultimately show "result_changes (assembleAnalysisResult loc job domain) = collectTimelineChanges loc job
        \<and> (\<forall>c \<in> set (result_changes (assembleAnalysisResult loc job domain)).
              change_comparisonRef c \<noteq> None)
        \<and> (\<forall>p. result_changes (assembleAnalysisResult loc (job\<lparr>job_pipeline := p\<rparr>) domain)
                 = result_changes (assembleAnalysisResult loc job domain))"
    using changes by blast
qed

text \<open>
  A job without timeline whose four job-level stages each report one finding gets one change
  from each, in the order of the fallback; the same job with a timeline entry of one pair
  gets the change of that entry only.
\<close>

theorem assemble_fallback_rule_witness:
  "map change_id (result_changes (assembleAnalysisResult showNat
      (noJob\<lparr>job_pipeline := Some allDetectors\<rparr>) F1))
     = [''pcb-0'', ''component-0'', ''mask-0'', ''changeformer-0'']
   \<and> map change_id (result_changes (assembleAnalysisResult showNat
      (noJob\<lparr>job_timeline := Some [timelineEntry 0 1 (objectDiffOnly [noPair])],
              job_pipeline := Some allDetectors\<rparr>) F1)) = [''RF-DETR-Seg-f1-0'']
   \<and> result_changes (assembleAnalysisResult showNat noJob F1) = []"
proof -
  let ?a = "noJob\<lparr>job_pipeline := Some allDetectors\<rparr>"
  let ?b = "noJob\<lparr>job_timeline := Some [timelineEntry 0 1 (objectDiffOnly [noPair])],
              job_pipeline := Some allDetectors\<rparr>"
  have empty: "collectTimelineChanges showNat ?a = []"
    by code_simp
  have pipeline: "job_pipeline ?a = Some allDetectors"
    by simp
  have bare: "collectTimelineChanges showNat noJob = []" and absent: "job_pipeline noJob = None"
    by (simp_all add: collectTimelineChanges_def noJob_def)
  have nonempty: "collectTimelineChanges showNat ?b \<noteq> []"
    by code_simp
  have ids: "map change_id (collectTimelineChanges showNat ?b) = [''RF-DETR-Seg-f1-0'']"
    by code_simp
  have fallback: "map change_id
     (createPcbChanges showNat
        (case pcb_cd allDetectors of
           None \<Rightarrow> []
         | Some stage \<Rightarrow>
             (case pcb_summary stage of
                None \<Rightarrow> []
              | Some summary \<Rightarrow> (case summary_regions summary of None \<Rightarrow> [] | Some regions \<Rightarrow> regions)))
        (case pcb_cd allDetectors of None \<Rightarrow> None | Some stage \<Rightarrow> pcb_imageSize stage)
      @ createYoloChanges
        (case object_diff allDetectors of
           None \<Rightarrow> []
         | Some stage \<Rightarrow>
             (case (case od_report stage of None \<Rightarrow> None | Some report \<Rightarrow> od_paired report) of
                Some pairs \<Rightarrow> pairs
              | None \<Rightarrow>
                  (case od_summary stage of
                     None \<Rightarrow> []
                   | Some summary \<Rightarrow> (case od_paired summary of None \<Rightarrow> [] | Some pairs \<Rightarrow> pairs))))
        (case object_diff allDetectors of None \<Rightarrow> None | Some stage \<Rightarrow> od_imageSize stage)
      @ createMaskChanges
        (case mask_rcnn allDetectors of
           None \<Rightarrow> []
         | Some stage \<Rightarrow>
             (case mask_summary stage of
                None \<Rightarrow> []
              | Some summary \<Rightarrow> (case mask_detections summary of None \<Rightarrow> [] | Some dets \<Rightarrow> dets)))
        (case mask_rcnn allDetectors of None \<Rightarrow> None | Some stage \<Rightarrow> mask_imageSize stage)
      @ createChangeformerChanges
        (case changeformer_cd allDetectors of None \<Rightarrow> None | Some stage \<Rightarrow> cf_summary stage)
        (case changeformer_cd allDetectors of None \<Rightarrow> None | Some stage \<Rightarrow> cf_imageSize stage))
     = [''pcb-0'', ''component-0'', ''mask-0'', ''changeformer-0'']"
    by code_simp
  have "map change_id (result_changes (assembleAnalysisResult showNat ?a F1))
      = [''pcb-0'', ''component-0'', ''mask-0'', ''changeformer-0'']"
    using assemble_fallback_rule [where job = ?a and loc = showNat and domain = F1, THEN conjunct1,
        rule_format, OF empty, THEN conjunct2, THEN conjunct1, rule_format, OF pipeline] fallback
    by simp
  moreover have "map change_id (result_changes (assembleAnalysisResult showNat ?b F1)) = [''RF-DETR-Seg-f1-0'']"
    using assemble_fallback_rule [where job = ?b and loc = showNat and domain = F1, THEN conjunct2,
        rule_format, OF nonempty, THEN conjunct1] ids
    by simp
  moreover have "result_changes (assembleAnalysisResult showNat noJob F1) = []"
    using assemble_fallback_rule [where job = noJob and loc = showNat and domain = F1, THEN conjunct1,
        rule_format, OF bare, THEN conjunct1, rule_format, OF absent] .
  ultimately show ?thesis by blast
qed

subsection \<open>Object-diff builder on a consecutive timeline\<close>

lemma includesStr_append: "includesStr (ps @ t) t"
proof (induction ps)
  case Nil
  then show ?case by (cases t) simp_all
next
  case (Cons p ps)
  then show ?case by simp
qed



lemma yoloChange_severity:
  "change_impact (yoloChange sz i pair) = (if pair_changed pair = Some True then High else Low)"
  "change_criticality (yoloChange sz i pair) = (if pair_changed pair = Some True then 7 else 3)"
  "change_estimatedCost (yoloChange sz i pair) = (if pair_changed pair = Some True then 5000 else 0)"
  "change_redFlags (yoloChange sz i pair)
     = (if pair_changed pair = Some True
        then [''SSIM delta '' @ (case pair_ssim pair of None \<Rightarrow> ''N/A'' | Some v \<Rightarrow> toFixed 3 v)]
        else [])"
  by (simp_all add: yoloChange_def Let_def nullish_def split: option.splits)

lemma length_createYoloChanges [simp]: "length (createYoloChanges pairs sz) = length pairs"
  by (simp add: createYoloChanges_def)

lemma length_labelTimelineChanges [simp]: "length (labelTimelineChanges cs a b m pfx) = length cs"
  by (simp add: labelTimelineChanges_def Let_def)

lemma nth_labelled_yolo:
  assumes "i < length ps"
  shows "labelTimelineChanges (createYoloChanges ps sz) a b m pfx ! i
     = (yoloChange sz i (ps ! i))
         \<lparr> change_id := pfx @ ''-f'' @ showNat a @ ''-'' @ showNat i,
           change_description := change_description (yoloChange sz i (ps ! i)) @ '' '' @ middot @ '' ''
              @ formatComparisonLabel a b m,
           change_comparisonRef := Some \<lparr> ref_beforeIndex = b, ref_afterIndex = a,
              ref_label = formatComparisonLabel a b m \<rparr> \<rparr>"
  using assms by (simp add: labelTimelineChanges_def createYoloChanges_def Let_def nth_mapIndexed)

lemma impacts_labelled_yolo:
  "map change_impact (labelTimelineChanges (createYoloChanges ps sz) a b m pfx)
     = map (\<lambda>p. if pair_changed p = Some True then High else Low) ps"
  by (rule nth_equalityI) (simp_all add: nth_labelled_yolo yoloChange_severity)

lemma count_high_labelled_yolo:
  "length (filter (\<lambda>c. change_impact c = High) (labelTimelineChanges (createYoloChanges ps sz) a b m pfx))
     = length (filter (\<lambda>p. pair_changed p = Some True) ps)"
proof -
  let ?L = "labelTimelineChanges (createYoloChanges ps sz) a b m pfx"
  have "length (filter (\<lambda>c. change_impact c = High) ?L)
      = length (filter (\<lambda>x. x = High) (map change_impact ?L))"
    by (simp add: filter_map comp_def)
  also have "\<dots> = length (filter (\<lambda>x. x = High)
      (map (\<lambda>p. if pair_changed p = Some True then High else Low) ps))"
    by (simp only: impacts_labelled_yolo)
  also have "\<dots> = length (filter (\<lambda>p. pair_changed p = Some True) ps)"
    by (simp add: filter_map comp_def)
  finally show ?thesis .
qed

lemma in_labelled_yolo:
  assumes "c \<in> set (labelTimelineChanges (createYoloChanges ps sz) a b m pfx)"
  shows "\<exists>p \<in> set ps.
           change_impact c = (if pair_changed p = Some True then High else Low)
         \<and> change_criticality c = (if pair_changed p = Some True then 7 else 3)
         \<and> change_estimatedCost c = (if pair_changed p = Some True then 5000 else 0)
         \<and> includesStr (change_description c) (formatComparisonLabel a b m)"
proof -
  from assms obtain i where i: "i < length ps"
    and c: "c = labelTimelineChanges (createYoloChanges ps sz) a b m pfx ! i"
    by (auto simp: in_set_conv_nth)
  have "includesStr (change_description c) (formatComparisonLabel a b m)"
    unfolding c nth_labelled_yolo [OF i]
    using includesStr_append [of "change_description (yoloChange sz i (ps ! i)) @ '' '' @ middot @ '' ''"]
    by simp
  with i show ?thesis
    unfolding c nth_labelled_yolo [OF i]
    by (intro bexI [of _ "ps ! i"]) (simp_all add: yoloChange_severity)
qed

lemma entryChanges_objectDiffOnly:
  "entryChanges loc m (timelineEntry b a (objectDiffOnly ps))
     = labelTimelineChanges (createYoloChanges ps None) a b m ''RF-DETR-Seg''"
  by (simp add: entryChanges_def timelineEntry_def objectDiffOnly_def emptyPipeline_def
      yoloPairsOf_def maskDetectionsOf_def pcbRegionsOf_def changeformerSummaryOf_def
      createPcbChanges_def createMaskChanges_def createChangeformerChanges_def
      labelTimelineChanges_def nullish_def Let_def)

lemma label_3_2: "formatComparisonLabel 2 1 Consecutive = ''Frame 3 vs Frame 2''"
  by code_simp

text \<open>
  C4 (as amended). The severity of the object-diff builder is binary: a changed pair gives
  impact High, criticality 7, cost 5000 and one red flag citing the SSIM delta; any other
  pair gives impact Low, criticality 3, cost 0 and no red flag. Every pair yields a change,
  the unchanged ones too. So for three frames compared consecutively, where the pairs of
  frame 1 against frame 0 are all unchanged and exactly one pair of frame 2 against frame 1 is
  changed, the result holds one change per reported pair; exactly one of them has impact
  High, and that one has criticality 7 and a description containing \<open>Frame 3 vs Frame 2\<close>;
  all the others have impact Low and criticality 3.
\<close>

theorem objectDiff_consecutive_scenario:
  assumes mode: "job_comparisonMode job = Some Consecutive"
    and timeline: "job_timeline job
        = Some [timelineEntry 0 1 (objectDiffOnly first), timelineEntry 1 2 (objectDiffOnly second)]"
    and unchanged: "\<forall>p \<in> set first. pair_changed p \<noteq> Some True"
    and one: "length (filter (\<lambda>p. pair_changed p = Some True) second) = 1"
  shows "length (result_changes (assembleAnalysisResult loc job domain)) = length first + length second
       \<and> length (filter (\<lambda>c. change_impact c = High)
            (result_changes (assembleAnalysisResult loc job domain))) = 1
       \<and> (\<forall>c \<in> set (result_changes (assembleAnalysisResult loc job domain)).
            (change_impact c = High \<longrightarrow>
               change_criticality c = 7 \<and> change_estimatedCost c = 5000
               \<and> includesStr (change_description c) ''Frame 3 vs Frame 2'')
          \<and> (change_impact c \<noteq> High \<longrightarrow>
               change_impact c = Low \<and> change_criticality c = 3 \<and> change_estimatedCost c = 0))
       \<and> (\<forall>sz i pair.
            change_impact (yoloChange sz i pair) = (if pair_changed pair = Some True then High else Low)
          \<and> change_criticality (yoloChange sz i pair) = (if pair_changed pair = Some True then 7 else 3)
          \<and> change_estimatedCost (yoloChange sz i pair)
              = (if pair_changed pair = Some True then 5000 else 0)
          \<and> change_redFlags (yoloChange sz i pair)
              = (if pair_changed pair = Some True
                 then [''SSIM delta '' @ (case pair_ssim pair of None \<Rightarrow> ''N/A'' | Some v \<Rightarrow> toFixed 3 v)]
                 else []))"
proof -
  let ?L1 = "labelTimelineChanges (createYoloChanges first None) 1 0 Consecutive ''RF-DETR-Seg''"
  let ?L2 = "labelTimelineChanges (createYoloChanges second None) 2 1 Consecutive ''RF-DETR-Seg''"
  have collected: "collectTimelineChanges loc job = ?L1 @ ?L2"
    by (simp add: collectTimelineChanges_def timeline mode nullish_def entryChanges_objectDiffOnly)
  from one have "second \<noteq> []"
    by auto
  then have "?L1 @ ?L2 \<noteq> []"
    by (metis append_is_Nil_conv length_0_conv length_labelTimelineChanges length_createYoloChanges)
  then have changes: "result_changes (assembleAnalysisResult loc job domain) = ?L1 @ ?L2"
    by (simp add: assembleAnalysisResult_def Let_def collected)
  have none: "filter (\<lambda>p. pair_changed p = Some True) first = []"
    using unchanged by (simp add: filter_empty_conv)
  have high: "length (filter (\<lambda>c. change_impact c = High) (?L1 @ ?L2)) = 1"
    using none one by (simp add: count_high_labelled_yolo)
  have each: "(change_impact c = High \<longrightarrow>
               change_criticality c = 7 \<and> change_estimatedCost c = 5000
               \<and> includesStr (change_description c) ''Frame 3 vs Frame 2'')
          \<and> (change_impact c \<noteq> High \<longrightarrow>
               change_impact c = Low \<and> change_criticality c = 3 \<and> change_estimatedCost c = 0)"
    if "c \<in> set (?L1 @ ?L2)" for c
  proof (cases "c \<in> set ?L1")
    case True
    from in_labelled_yolo [OF True] unchanged show ?thesis
      by auto
  next
    case False
    with that have "c \<in> set ?L2"
      by simp
    from in_labelled_yolo [OF this] show ?thesis
      unfolding label_3_2 by (auto split: if_splits)
  qed
  show ?thesis
    unfolding changes using high each
    by (simp add: yoloChange_severity)
qed

text \<open>
  With no pair reported for the first comparison the changed component is the only change;
  with one unchanged pair reported there are two changes, one of them High.
\<close>

theorem objectDiff_consecutive_scenario_witness:
  "length (result_changes (assembleAnalysisResult showNat
      (scenarioA [] [noPair\<lparr>pair_changed := Some True\<rparr>]) F1)) = 1
   \<and> length (result_changes (assembleAnalysisResult showNat
      (scenarioA [noPair\<lparr>pair_changed := Some False\<rparr>] [noPair\<lparr>pair_changed := Some True\<rparr>]) F1)) = 2
   \<and> length (filter (\<lambda>c. change_impact c = High) (result_changes (assembleAnalysisResult showNat
      (scenarioA [noPair\<lparr>pair_changed := Some False\<rparr>] [noPair\<lparr>pair_changed := Some True\<rparr>]) F1))) = 1"
proof -
  let ?u = "noPair\<lparr>pair_changed := Some False\<rparr>"
  let ?q = "noPair\<lparr>pair_changed := Some True\<rparr>"
  have mode: "job_comparisonMode (scenarioA first second) = Some Consecutive" for first second
    by (simp add: scenarioA_def)
  have timeline: "job_timeline (scenarioA first second)
      = Some [timelineEntry 0 1 (objectDiffOnly first), timelineEntry 1 2 (objectDiffOnly second)]"
    for first second
    by (simp add: scenarioA_def)
  have unchanged: "\<forall>p \<in> set []. pair_changed p \<noteq> Some True"
    "\<forall>p \<in> set [?u]. pair_changed p \<noteq> Some True"
    by simp_all
  have one: "length (filter (\<lambda>p. pair_changed p = Some True) [?q]) = 1"
    by simp
  note alone = objectDiff_consecutive_scenario
    [OF mode timeline unchanged(1) one, where loc = showNat and domain = F1]
  note both = objectDiff_consecutive_scenario
    [OF mode timeline unchanged(2) one, where loc = showNat and domain = F1]
  from alone have "length (result_changes (assembleAnalysisResult showNat (scenarioA [] [?q]) F1))
      = length ([] :: BackendYoloPair list) + length [?q]"
    by (rule conjunct1)
  moreover from both
  have "length (result_changes (assembleAnalysisResult showNat (scenarioA [?u] [?q]) F1))
      = length [?u] + length [?q]"
    by (rule conjunct1)
  moreover from both
  have "length (filter (\<lambda>c. change_impact c = High)
      (result_changes (assembleAnalysisResult showNat (scenarioA [?u] [?q]) F1))) = 1"
    by blast
  ultimately show ?thesis by simp
qed

text \<open>
  C4 as stated promises exactly one change. When the unchanged comparison reports its
  component (\<open>changed = false\<close>), the builder emits a Low change for it and the result has
  two.
\<close>

theorem objectDiff_consecutive_scenario_counterexample:
  "length (result_changes (assembleAnalysisResult showNat
      (scenarioA [noPair\<lparr>pair_changed := Some False\<rparr>] [noPair\<lparr>pair_changed := Some True\<rparr>]) F1)) \<noteq> 1"
  by code_simp

section \<open>Properties of the ArtifactURLResolver\<close>

lemma stripLeading_Nil [simp]: "stripLeading tokens [] = []"
proof -
  have "find (\<lambda>w. w \<noteq> [] \<and> prefix w []) tokens = None"
    by (simp add: find_None_iff)
  then show ?thesis
    by (subst stripLeading.simps) simp
qed

lemma trim_Nil [simp]: "trim [] = []"
  by (simp add: trim_def)

lemma isHttp_nonempty: "isHttp s \<Longrightarrow> s \<noteq> []"
  by (auto simp: isHttp_def toLowerCase_def)

text \<open>
  Every string the resolver passes to \<^verbatim>\<open>encodeURIComponent\<close> is a contiguous part of the
  reference, and an unpaired surrogate of a part is one of the whole.
\<close>

lemma hasLoneSurrogate_Cons: "hasLoneSurrogate cs \<Longrightarrow> hasLoneSurrogate (c # cs)"
  by (cases cs) simp_all

lemma hasLoneSurrogate_append_right: "hasLoneSurrogate ys \<Longrightarrow> hasLoneSurrogate (xs @ ys)"
  by (induction xs) (simp_all add: hasLoneSurrogate_Cons)

lemma hasLoneSurrogate_append_left: "hasLoneSurrogate xs \<Longrightarrow> hasLoneSurrogate (xs @ ys)"
proof (induction xs rule: hasLoneSurrogate.induct)
  case (1 c d cs)
  then show ?case
    by auto
qed simp_all

lemma hasLoneSurrogate_sublist:
  assumes "sublist xs ys" and "hasLoneSurrogate xs"
  shows "hasLoneSurrogate ys"
proof -
  from assms(1) obtain ps ss where "ys = ps @ xs @ ss"
    by (auto simp: sublist_def)
  with assms(2) show ?thesis
    by (simp add: hasLoneSurrogate_append_left hasLoneSurrogate_append_right)
qed

lemma sublist_transitive: "sublist xs ys \<Longrightarrow> sublist ys zs \<Longrightarrow> sublist xs zs"
  by (rule sublist_order.order_trans)

lemma sublist_ConsI: "sublist xs ys \<Longrightarrow> sublist xs (y # ys)"
  by (simp add: sublist_Cons_right)

lemma stripLeading_suffix: "suffix (stripLeading tokens s) s"
proof (induction tokens s rule: stripLeading.induct)
  case (1 tokens s)
  show ?case
  proof (cases "find (\<lambda>w. w \<noteq> [] \<and> prefix w s) tokens")
    case None
    then show ?thesis
      by (subst stripLeading.simps) simp
  next
    case (Some w)
    from 1 [OF Some] have "suffix (stripLeading tokens (drop (length w) s)) (drop (length w) s)" .
    moreover have "suffix (drop (length w) s) s"
      by (rule suffix_drop)
    ultimately have "suffix (stripLeading tokens (drop (length w) s)) s"
      by (rule suffix_order.trans)
    with Some show ?thesis
      by (subst stripLeading.simps) simp
  qed
qed

lemma trim_sublist: "sublist (trim s) s"
proof -
  let ?t = "stripLeading whiteSpace s"
  have "suffix (stripLeading (map rev whiteSpace) (rev ?t)) (rev ?t)"
    by (rule stripLeading_suffix)
  then have "prefix (trim s) ?t"
    by (simp add: trim_def suffix_to_prefix)
  then have "sublist (trim s) ?t"
    by (rule prefix_imp_sublist)
  moreover have "sublist ?t s"
    by (rule suffix_imp_sublist) (rule stripLeading_suffix)
  ultimately show ?thesis
    by (rule sublist_transitive)
qed

lemma takeLine_prefix: "prefix (takeLine s) s"
  by (induction s) auto

lemma matchJobPathAt_sublist:
  assumes "matchJobPathAt s = Some (jobId, relativePath)"
  shows "sublist relativePath s"
proof -
  let ?rest = "drop (length ''/data/jobs/'') s"
  from assms obtain c remainder
    where after: "dropWhile (\<lambda>c. c \<noteq> CHR ''/'') ?rest = c # remainder"
      and rel: "relativePath = takeLine remainder"
    by (auto simp: matchJobPathAt_def Let_def split: if_splits list.splits)
  have "suffix (dropWhile (\<lambda>c. c \<noteq> CHR ''/'') ?rest) ?rest"
    by (rule suffix_dropWhile)
  then have "suffix (c # remainder) s"
    unfolding after using suffix_drop suffix_order.trans by blast
  then have "suffix remainder s"
    by (rule suffix_ConsD)
  then have "sublist remainder s"
    by (rule suffix_imp_sublist)
  moreover have "sublist relativePath remainder"
    unfolding rel by (rule prefix_imp_sublist) (rule takeLine_prefix)
  ultimately show ?thesis
    by (rule sublist_transitive [rotated])
qed

lemma matchJobPath_sublist:
  "matchJobPath s = Some (jobId, relativePath) \<Longrightarrow> sublist relativePath s"
proof (induction s)
  case Nil
  then show ?case by simp
next
  case (Cons c cs)
  show ?case
  proof (cases "matchJobPathAt (c # cs)")
    case None
    with Cons have "sublist relativePath cs"
      by simp
    then show ?thesis
      by (rule sublist_ConsI)
  next
    case (Some groups)
    with Cons.prems have "matchJobPathAt (c # cs) = Some (jobId, relativePath)"
      by simp
    then show ?thesis
      by (rule matchJobPathAt_sublist)
  qed
qed

lemma splitOn_head_prefix: "splitOn sep s = seg # segs \<Longrightarrow> prefix seg s"
  by (induction s arbitrary: seg segs) (auto split: if_splits list.splits)

lemma splitOn_sublist: "seg \<in> set (splitOn sep s) \<Longrightarrow> sublist seg s"
proof (induction s arbitrary: seg)
  case Nil
  then show ?case by simp
next
  case (Cons c cs)
  show ?case
  proof (cases "c = sep")
    case True
    with Cons.prems have "seg = [] \<or> seg \<in> set (splitOn sep cs)"
      by simp
    then show ?thesis
    proof
      assume "seg = []"
      then show ?thesis
        by simp
    next
      assume "seg \<in> set (splitOn sep cs)"
      then have "sublist seg cs"
        by (rule Cons.IH)
      then show ?thesis
        by (rule sublist_ConsI)
    qed
  next
    case False
    show ?thesis
    proof (cases "splitOn sep cs")
      case Nil
      with False Cons.prems show ?thesis
        by simp
    next
      case (Cons seg0 segs)
      with False Cons.prems have "seg = c # seg0 \<or> seg \<in> set segs"
        by simp
      then show ?thesis
      proof
        assume "seg = c # seg0"
        moreover from Cons have "prefix seg0 cs"
          by (rule splitOn_head_prefix)
        ultimately show ?thesis
          by (simp add: prefix_imp_sublist)
      next
        assume "seg \<in> set segs"
        with Cons have "seg \<in> set (splitOn sep cs)"
          by simp
        then have "sublist seg cs"
          by (rule Cons.IH)
        then show ?thesis
          by (rule sublist_ConsI)
      qed
    qed
  qed
qed

text \<open>
  The only error of the encoder is \<^verbatim>\<open>URIError\<close>, for a path with an unpaired surrogate.
\<close>

lemma mapOrThrow_encodeURIComponent:
  "mapOrThrow encodeURIComponent xs = Inl e \<Longrightarrow> e = URIError \<and> (\<exists>x \<in> set xs. hasLoneSurrogate x)"
  by (induction xs arbitrary: e) (auto simp: encodeURIComponent_def split: sum.splits if_splits)

lemma encodeSegmentedPath_error:
  assumes "encodeSegmentedPath path = Inl e"
  shows "e = URIError \<and> hasLoneSurrogate path"
proof -
  from assms have "mapOrThrow encodeURIComponent (filter (\<lambda>seg. seg \<noteq> []) (splitOn (CHR ''/'') path)) = Inl e"
    by (simp add: encodeSegmentedPath_def split: sum.splits)
  then have "e = URIError \<and> (\<exists>x \<in> set (filter (\<lambda>seg. seg \<noteq> []) (splitOn (CHR ''/'') path)). hasLoneSurrogate x)"
    by (rule mapOrThrow_encodeURIComponent)
  then obtain seg where "e = URIError" and "seg \<in> set (splitOn (CHR ''/'') path)" and "hasLoneSurrogate seg"
    by auto
  then show ?thesis
    using splitOn_sublist hasLoneSurrogate_sublist by blast
qed

text \<open>
  The rules of the resolver, one by one: a reference that is not blank resolves to a URL,
  unless one of the three calls of the encoder throws.
\<close>

lemma resolveArtifactUrl_blank:
  assumes "trim a = []"
  shows "resolveArtifactUrl env (Some a) comparisonRoot = Inr None"
  using assms by (simp add: resolveArtifactUrl_def Let_def)

lemma resolveArtifactUrl_http:
  assumes "isHttp (trim a)"
  shows "resolveArtifactUrl env (Some a) comparisonRoot = Inr (Some (trim a))"
proof -
  from assms have "trim a \<noteq> []"
    by (rule isHttp_nonempty)
  moreover from this have "a \<noteq> []"
    by auto
  ultimately show ?thesis
    using assms by (simp add: resolveArtifactUrl_def Let_def)
qed

lemma resolveArtifactUrl_cases:
  assumes "trim a \<noteq> []"
  obtains url where "resolveArtifactUrl env (Some a) comparisonRoot = Inr (Some url)"
  | jobId relativePath where "matchJobPath (trim a) = Some (jobId, relativePath)"
      and "resolveArtifactUrl env (Some a) comparisonRoot = Inl URIError"
      and "encodeSegmentedPath relativePath = Inl URIError"
  | "resolveArtifactUrl env (Some a) comparisonRoot = Inl URIError"
      and "encodeSegmentedPath (trim a) = Inl URIError"
proof -
  from assms have a: "a \<noteq> []"
    by auto
  have enc: "e = URIError" if "encodeSegmentedPath path = Inl e" for path e
    using that by (simp add: encodeSegmentedPath_error)
  consider "isHttp (trim a)" | "\<not> isHttp (trim a)" "prefix ''//'' (trim a)"
    | "\<not> isHttp (trim a)" "\<not> prefix ''//'' (trim a)"
    by blast
  then show thesis
  proof cases
    case 1
    then show thesis
      using that(1) resolveArtifactUrl_http by blast
  next
    case 2
    with assms a have "resolveArtifactUrl env (Some a) comparisonRoot = Inr (Some (''https:'' @ trim a))"
      by (simp add: resolveArtifactUrl_def Let_def)
    then show thesis
      by (rule that(1))
  next
    case 3
    show thesis
    proof (cases "matchJobPath (trim a)")
      case (Some groups)
      obtain jobId relativePath where groups: "groups = (jobId, relativePath)"
        by (cases groups)
      have r: "resolveArtifactUrl env (Some a) comparisonRoot =
          (case encodeSegmentedPath relativePath of
             Inl e \<Rightarrow> Inl e
           | Inr encoded \<Rightarrow> Inr (Some (dropTrailingSlash (ORCHESTRATOR_BASE env)
                                       @ ''/api/jobs/'' @ jobId @ ''/artifacts/'' @ encoded)))"
        using assms a 3 Some groups by (simp add: resolveArtifactUrl_def Let_def)
      show thesis
      proof (cases "encodeSegmentedPath relativePath")
        case (Inl e)
        with enc have "encodeSegmentedPath relativePath = Inl URIError"
          by blast
        with r Some groups show thesis
          using that(2) by simp
      next
        case (Inr encoded)
        with r show thesis
          using that(1) by simp
      qed
    next
      case None
      have tail: thesis
        if r: "resolveArtifactUrl env (Some a) comparisonRoot =
          (case encodeSegmentedPath (trim a) of
             Inl e \<Rightarrow> Inl e
           | Inr encoded \<Rightarrow> Inr (Some (front @ encoded)))" for front
      proof (cases "encodeSegmentedPath (trim a)")
        case (Inl e)
        with enc have "encodeSegmentedPath (trim a) = Inl URIError"
          by blast
        with r show thesis
          using \<open>\<lbrakk>resolveArtifactUrl env (Some a) comparisonRoot = Inl URIError;
                  encodeSegmentedPath (trim a) = Inl URIError\<rbrakk> \<Longrightarrow> thesis\<close> by simp
      next
        case (Inr encoded)
        with r show thesis
          using \<open>\<And>url. resolveArtifactUrl env (Some a) comparisonRoot = Inr (Some url) \<Longrightarrow> thesis\<close>
          by simp
      qed
      show thesis
      proof (cases "Option.bind comparisonRoot matchJobPath")
        case (Some groups)
        obtain jobId rest where groups: "groups = (jobId, rest)"
          by (cases groups)
        have "resolveArtifactUrl env (Some a) comparisonRoot =
          (case encodeSegmentedPath (trim a) of
             Inl e \<Rightarrow> Inl e
           | Inr encoded \<Rightarrow> Inr (Some ((dropTrailingSlash (ORCHESTRATOR_BASE env)
                                       @ ''/api/jobs/'' @ jobId @ ''/artifacts/'') @ encoded)))"
          using assms a 3 None Some groups
          by (simp add: resolveArtifactUrl_def Let_def split: sum.splits)
        then show thesis
          by (rule tail)
      next
        case none: None
        show thesis
        proof (cases "prefix ''/'' (trim a)")
          case True
          with assms a 3 None none
          have "resolveArtifactUrl env (Some a) comparisonRoot
                  = Inr (Some (dropTrailingSlash (ORCHESTRATOR_BASE env) @ trim a))"
            by (simp add: resolveArtifactUrl_def Let_def)
          then show thesis
            by (rule that(1))
        next
          case False
          with assms a 3 None none
          have "resolveArtifactUrl env (Some a) comparisonRoot =
            (case encodeSegmentedPath (trim a) of
               Inl e \<Rightarrow> Inl e
             | Inr encoded \<Rightarrow> Inr (Some ((dropTrailingSlash (ORCHESTRATOR_BASE env) @ ''/'') @ encoded)))"
            by (simp add: resolveArtifactUrl_def Let_def split: sum.splits)
          then show thesis
            by (rule tail)
        qed
      qed
    qed
  qed
qed

lemma resolveArtifactUrl_null_iff:
  "resolveArtifactUrl env artifact comparisonRoot = Inr None
     \<longleftrightarrow> artifact = None \<or> (\<exists>a. artifact = Some a \<and> trim a = [])"
proof (cases artifact)
  case None
  then show ?thesis
    by (simp add: resolveArtifactUrl_def)
next
  case (Some a)
  show ?thesis
  proof (cases "trim a = []")
    case True
    with Some show ?thesis
      by (simp add: resolveArtifactUrl_blank)
  next
    case False
    then have "resolveArtifactUrl env (Some a) comparisonRoot \<noteq> Inr None"
      by (rule resolveArtifactUrl_cases [where env = env and comparisonRoot = comparisonRoot]) simp_all
    with Some False show ?thesis
      by simp
  qed
qed

lemma resolveArtifactUrl_error:
  assumes "resolveArtifactUrl env (Some a) comparisonRoot = Inl e"
  shows "e = URIError \<and> hasLoneSurrogate a"
proof -
  from assms have "trim a \<noteq> []"
    using resolveArtifactUrl_blank [of a env comparisonRoot] by auto
  then show ?thesis
  proof (rule resolveArtifactUrl_cases [where env = env and comparisonRoot = comparisonRoot])
    fix url
    assume "resolveArtifactUrl env (Some a) comparisonRoot = Inr (Some url)"
    with assms show ?thesis
      by simp
  next
    fix jobId relativePath
    assume m: "matchJobPath (trim a) = Some (jobId, relativePath)"
      and r: "resolveArtifactUrl env (Some a) comparisonRoot = Inl URIError"
      and enc: "encodeSegmentedPath relativePath = Inl URIError"
    from m have "sublist relativePath (trim a)"
      by (rule matchJobPath_sublist)
    then have "sublist relativePath a"
      using trim_sublist by (rule sublist_transitive)
    moreover from enc have "hasLoneSurrogate relativePath"
      by (simp add: encodeSegmentedPath_error)
    ultimately have "hasLoneSurrogate a"
      by (rule hasLoneSurrogate_sublist)
    with assms r show ?thesis
      by simp
  next
    assume r: "resolveArtifactUrl env (Some a) comparisonRoot = Inl URIError"
      and enc: "encodeSegmentedPath (trim a) = Inl URIError"
    from enc have "hasLoneSurrogate (trim a)"
      by (simp add: encodeSegmentedPath_error)
    with trim_sublist have "hasLoneSurrogate a"
      by (rule hasLoneSurrogate_sublist)
    with assms r show ?thesis
      by simp
  qed
qed

text \<open>
  C9 (as amended). The resolver returns nothing, without throwing, exactly for the
  references it does not classify: an absent reference, and a reference that is empty once
  trimmed. Every other reference resolves to a URL, the last rule taking whatever the
  earlier ones left, unless it throws; it throws only \<^verbatim>\<open>URIError\<close>, and only for a
  reference that holds an unpaired surrogate, so a reference of well-formed text that is
  not blank always resolves to a URL. An absolute http(s) reference is returned trimmed:
  unchanged when it carries no surrounding whitespace.
\<close>

theorem resolveArtifactUrl_null_cases:
  "(resolveArtifactUrl env artifact comparisonRoot = Inr None
      \<longleftrightarrow> artifact = None \<or> (\<exists>a. artifact = Some a \<and> trim a = []))
   \<and> (isHttp (trim a) \<longrightarrow> resolveArtifactUrl env (Some a) comparisonRoot = Inr (Some (trim a)))
   \<and> (isHttp a \<and> trim a = a \<longrightarrow> resolveArtifactUrl env (Some a) comparisonRoot = Inr (Some a))
   \<and> (trim a \<noteq> [] \<and> \<not> hasLoneSurrogate a
        \<longrightarrow> (\<exists>url. resolveArtifactUrl env (Some a) comparisonRoot = Inr (Some url)))
   \<and> (\<forall>e. resolveArtifactUrl env (Some a) comparisonRoot = Inl e \<longrightarrow> e = URIError \<and> hasLoneSurrogate a)"
proof -
  have nulls: "resolveArtifactUrl env artifact comparisonRoot = Inr None
      \<longleftrightarrow> artifact = None \<or> (\<exists>a. artifact = Some a \<and> trim a = [])"
    by (rule resolveArtifactUrl_null_iff)
  have http: "isHttp (trim a) \<longrightarrow> resolveArtifactUrl env (Some a) comparisonRoot = Inr (Some (trim a))"
    by (simp add: resolveArtifactUrl_http)
  have same: "isHttp a \<and> trim a = a \<longrightarrow> resolveArtifactUrl env (Some a) comparisonRoot = Inr (Some a)"
    using resolveArtifactUrl_http [of a env comparisonRoot] by simp
  have throws: "\<forall>e. resolveArtifactUrl env (Some a) comparisonRoot = Inl e \<longrightarrow> e = URIError \<and> hasLoneSurrogate a"
    using resolveArtifactUrl_error by blast
  have url: "trim a \<noteq> [] \<and> \<not> hasLoneSurrogate a
        \<longrightarrow> (\<exists>url. resolveArtifactUrl env (Some a) comparisonRoot = Inr (Some url))"
  proof
    assume wf: "trim a \<noteq> [] \<and> \<not> hasLoneSurrogate a"
    show "\<exists>url. resolveArtifactUrl env (Some a) comparisonRoot = Inr (Some url)"
    proof (cases "resolveArtifactUrl env (Some a) comparisonRoot")
      case (Inl e)
      with throws have "hasLoneSurrogate a"
        by blast
      with wf show ?thesis
        by simp
    next
      case (Inr r)
      with wf resolveArtifactUrl_null_iff [of env "Some a" comparisonRoot] show ?thesis
        by (cases r) auto
    qed
  qed
  show ?thesis
    by (intro conjI) (rule nulls http same url throws)+
qed

text \<open>
  An https reference passes through, a blank or absent one gives nothing, a bare file name
  resolves, and the reference that is one unpaired surrogate (U+D800) throws.
\<close>

theorem resolveArtifactUrl_null_cases_witness:
  "resolveArtifactUrl None (Some ''https://x/y.png'') None = Inr (Some ''https://x/y.png'')
   \<and> resolveArtifactUrl None (Some ''  '') None = Inr None
   \<and> resolveArtifactUrl None None None = Inr None
   \<and> (\<exists>url. resolveArtifactUrl None (Some ''overlay.png'') None = Inr (Some url))
   \<and> resolveArtifactUrl None (Some [CHR 0xED, CHR 0xA0, CHR 0x80]) None = Inl URIError
   \<and> hasLoneSurrogate [CHR 0xED, CHR 0xA0, CHR 0x80]"
proof -
  have http: "isHttp ''https://x/y.png'' \<and> trim ''https://x/y.png'' = ''https://x/y.png''"
    by code_simp
  have blank: "trim ''  '' = []"
    by code_simp
  have plain: "trim ''overlay.png'' \<noteq> [] \<and> \<not> hasLoneSurrogate ''overlay.png''"
    by code_simp
  have lone: "resolveArtifactUrl None (Some [CHR 0xED, CHR 0xA0, CHR 0x80]) None = Inl URIError"
    by code_simp
  note r = resolveArtifactUrl_null_cases [where env = None and comparisonRoot = None]
  have "resolveArtifactUrl None (Some ''https://x/y.png'') None = Inr (Some ''https://x/y.png'')"
    using r [where a = "''https://x/y.png''", THEN conjunct2, THEN conjunct2, THEN conjunct1, rule_format, OF http] .
  moreover have "resolveArtifactUrl None (Some ''  '') None = Inr None"
    using r [where artifact = "Some ''  ''", THEN conjunct1] blank by simp
  moreover have "resolveArtifactUrl None None None = Inr None"
    using r [where artifact = None, THEN conjunct1] by simp
  moreover have "\<exists>url. resolveArtifactUrl None (Some ''overlay.png'') None = Inr (Some url)"
    using r [where a = "''overlay.png''", THEN conjunct2, THEN conjunct2, THEN conjunct2, THEN conjunct1, rule_format, OF plain] .
  moreover have "hasLoneSurrogate [CHR 0xED, CHR 0xA0, CHR 0x80]"
    using r [where a = "[CHR 0xED, CHR 0xA0, CHR 0x80]", THEN conjunct2, THEN conjunct2, THEN conjunct2, THEN conjunct2, rule_format, OF lone]
    by (rule conjunct2)
  ultimately show ?thesis
    using lone by blast
qed

text \<open>
  C9 as stated returns every absolute http(s) reference unchanged. A reference with a
  trailing space is recognised as such and comes back without the space.
\<close>

theorem resolveArtifactUrl_trims_http_counterexample:
  "isHttp ''https://x/y.png ''
   \<and> resolveArtifactUrl None (Some ''https://x/y.png '') None \<noteq> Inr (Some ''https://x/y.png '')"
  by code_simp

text \<open>
  A bare reference under a comparison root of the job store is served from that job's
  artifacts, whatever the API base.
\<close>

lemma resolveArtifactUrl_scenario_B:
  "resolveArtifactUrl env (Some ''stages/mask_rcnn/overlay.png'')
      (Some ''/data/jobs/job-42/timeline/frame_02'')
     = Inr (Some (dropTrailingSlash (ORCHESTRATOR_BASE env)
             @ ''/api/jobs/job-42/artifacts/stages/mask_rcnn/overlay.png''))"
proof -
  have "trim ''stages/mask_rcnn/overlay.png'' = ''stages/mask_rcnn/overlay.png''"
    and "\<not> isHttp ''stages/mask_rcnn/overlay.png''"
    and "matchJobPath ''stages/mask_rcnn/overlay.png'' = None"
    and "matchJobPath ''/data/jobs/job-42/timeline/frame_02'' = Some (''job-42'', ''timeline/frame_02'')"
    and "encodeSegmentedPath ''stages/mask_rcnn/overlay.png'' = Inr ''stages/mask_rcnn/overlay.png''"
    by code_simp+
  then show ?thesis
    by (simp add: resolveArtifactUrl_def)
qed

text \<open>
  An unpaired surrogate makes the resolver throw where the reference is percent-encoded,
  here under the last rule; a reference starting with a slash is appended to the API base
  as it is, and resolves.
\<close>

lemma resolveArtifactUrl_unpaired_surrogate:
  "resolveArtifactUrl None (Some (''frame-'' @ [CHR 0xED, CHR 0xA0, CHR 0x80] @ ''.png'')) None = Inl URIError
   \<and> resolveArtifactUrl None (Some (''/static/'' @ [CHR 0xED, CHR 0xA0, CHR 0x80])) None
       = Inr (Some (''http://localhost:8000/static/'' @ [CHR 0xED, CHR 0xA0, CHR 0x80]))"
  by code_simp

section \<open>Uniqueness of change ids\<close>

subsection \<open>Decimal numerals are injective\<close>

lemma digit_cases:
  assumes "d < (10::nat)"
  obtains "d = 0" | "d = 1" | "d = 2" | "d = 3" | "d = 4" | "d = 5" | "d = 6" | "d = 7" | "d = 8" | "d = 9"
  using assms by atomize_elim arith

lemma digitValue_digitChar: "d < 10 \<Longrightarrow> digitValue (digitChar d) = d"
  by (erule digit_cases) (simp_all add: digitValue_def digitChar_def)

lemma digitChar_in_digits: "d < 10 \<Longrightarrow> digitChar d \<in> set ''0123456789''"
  by (erule digit_cases) (simp_all add: digitChar_def)

lemma readNat_snoc: "readNat (s @ [c]) = 10 * readNat s + digitValue c"
  by (simp add: readNat_def)

lemma readNat_showNat: "readNat (showNat n) = n"
proof (induction n rule: showNat.induct)
  case (1 n)
  show ?case
  proof (cases "n < 10")
    case True
    then show ?thesis
      by (subst showNat.simps) (simp add: readNat_def digitValue_digitChar)
  next
    case False
    with 1 have "readNat (showNat (n div 10)) = n div 10"
      by simp
    with False show ?thesis
      by (subst showNat.simps) (simp add: readNat_snoc digitValue_digitChar)
  qed
qed

lemma showNat_inject: "showNat m = showNat n \<longleftrightarrow> m = n"
  by (metis readNat_showNat)

lemma set_showNat: "set (showNat n) \<subseteq> set ''0123456789''"
proof (induction n rule: showNat.induct)
  case (1 n)
  show ?case
  proof (cases "n < 10")
    case True
    then show ?thesis
      using digitChar_in_digits [of n] by (subst showNat.simps) simp
  next
    case False
    with 1 have "set (showNat (n div 10)) \<subseteq> set ''0123456789''"
      by simp
    moreover have "digitChar (n mod 10) \<in> set ''0123456789''"
      by (rule digitChar_in_digits) simp
    ultimately show ?thesis
      using False by (subst showNat.simps) simp
  qed
qed

lemma dash_not_in_showNat: "CHR ''-'' \<notin> set (showNat n)"
  using set_showNat [of n] by auto

lemma takeWhile_until: "c \<notin> set xs \<Longrightarrow> takeWhile (\<lambda>x. x \<noteq> c) (xs @ c # ys) = xs"
  by (induction xs) auto

lemma split_at_first:
  assumes "c \<notin> set xs" and "c \<notin> set xs'" and "xs @ c # ys = xs' @ c # ys'"
  shows "xs = xs' \<and> ys = ys'"
proof -
  have "takeWhile (\<lambda>x. x \<noteq> c) (xs @ c # ys) = xs"
    using assms(1) by (rule takeWhile_until)
  moreover have "takeWhile (\<lambda>x. x \<noteq> c) (xs' @ c # ys') = xs'"
    using assms(2) by (rule takeWhile_until)
  ultimately have "xs = xs'"
    using assms(3) by simp
  with assms(3) show ?thesis
    by simp
qed

lemma index_pair_inject:
  assumes "showNat a @ ''-'' @ showNat i = showNat a' @ ''-'' @ showNat i'"
  shows "a = a' \<and> i = i'"
proof -
  from assms have "showNat a @ CHR ''-'' # showNat i = showNat a' @ CHR ''-'' # showNat i'"
    by simp
  then have "showNat a = showNat a' \<and> showNat i = showNat i'"
    by (rule split_at_first [OF dash_not_in_showNat dash_not_in_showNat])
  then show ?thesis
    by (simp add: showNat_inject)
qed

lemma timelineId_inject:
  assumes "p \<in> set timelinePrefixes" and "p' \<in> set timelinePrefixes"
    and "timelineId p a i = timelineId p' a' i'"
  shows "p = p' \<and> a = a' \<and> i = i'"
proof -
  from assms have same: "p = p'"
    by (auto simp: timelinePrefixes_def timelineId_def)
  with assms(3) have "showNat a @ ''-'' @ showNat i = showNat a' @ ''-'' @ showNat i'"
    by (simp add: timelineId_def)
  with same show ?thesis
    using index_pair_inject by blast
qed

subsection \<open>Ids of the timeline path\<close>

lemma ids_labelTimelineChanges:
  "map change_id (labelTimelineChanges cs a b m pfx) = map (timelineId pfx a) [0 ..< length cs]"
  by (rule nth_equalityI)
    (simp_all add: labelTimelineChanges_def Let_def nth_mapIndexed timelineId_def)

lemma distinct_timelineIds: "distinct (map (timelineId pfx a) [0 ..< n])"
proof -
  have "inj_on (timelineId pfx a) (set [0 ..< n])"
    by (rule inj_onI) (simp add: timelineId_def showNat_inject)
  then show ?thesis
    by (simp add: distinct_map)
qed

lemma entryIds_shape:
  "\<exists>n1 n2 n3 n4. entryIds loc mode entry
     = map (timelineId ''pcb'' (entry_afterIndex entry)) [0 ..< n1]
       @ map (timelineId ''RF-DETR-Seg'' (entry_afterIndex entry)) [0 ..< n2]
       @ map (timelineId ''mask'' (entry_afterIndex entry)) [0 ..< n3]
       @ map (timelineId ''changeformer'' (entry_afterIndex entry)) [0 ..< n4]"
proof (cases "entry_pipeline entry")
  case None
  then have "entryIds loc mode entry = []"
    by (simp add: entryIds_def entryChanges_def)
  then show ?thesis
    by (intro exI [of _ 0]) simp
next
  case (Some p)
  then show ?thesis
    unfolding entryIds_def entryChanges_def
    by (simp add: Let_def ids_labelTimelineChanges) blast
qed

lemma prefixes_mem:
  "''pcb'' \<in> set timelinePrefixes" "''RF-DETR-Seg'' \<in> set timelinePrefixes"
  "''mask'' \<in> set timelinePrefixes" "''changeformer'' \<in> set timelinePrefixes"
  by (simp_all add: timelinePrefixes_def)

lemma distinct_entryIds: "distinct (entryIds loc mode entry)"
proof -
  obtain n1 n2 n3 n4 where shape: "entryIds loc mode entry
     = map (timelineId ''pcb'' (entry_afterIndex entry)) [0 ..< n1]
       @ map (timelineId ''RF-DETR-Seg'' (entry_afterIndex entry)) [0 ..< n2]
       @ map (timelineId ''mask'' (entry_afterIndex entry)) [0 ..< n3]
       @ map (timelineId ''changeformer'' (entry_afterIndex entry)) [0 ..< n4]"
    using entryIds_shape by blast
  have apart: "timelineId p a ` A \<inter> timelineId p' a ` B = {}"
    if "p \<in> set timelinePrefixes" and "p' \<in> set timelinePrefixes" and "p \<noteq> p'"
    for p p' a and A B :: "nat set"
    using that timelineId_inject by blast
  show ?thesis
    unfolding shape
    by (simp add: distinct_timelineIds Int_Un_distrib Int_Un_distrib2 apart prefixes_mem)
qed

lemma entryIds_form:
  assumes "x \<in> set (entryIds loc mode entry)"
  shows "\<exists>p \<in> set timelinePrefixes. \<exists>i. x = timelineId p (entry_afterIndex entry) i"
proof -
  obtain n1 n2 n3 n4 where shape: "entryIds loc mode entry
     = map (timelineId ''pcb'' (entry_afterIndex entry)) [0 ..< n1]
       @ map (timelineId ''RF-DETR-Seg'' (entry_afterIndex entry)) [0 ..< n2]
       @ map (timelineId ''mask'' (entry_afterIndex entry)) [0 ..< n3]
       @ map (timelineId ''changeformer'' (entry_afterIndex entry)) [0 ..< n4]"
    using entryIds_shape by blast
  from assms show ?thesis
    unfolding shape using prefixes_mem by auto
qed

lemma distinct_timeline_ids:
  assumes "distinct (map entry_afterIndex timeline)"
  shows "distinct (concat (map (entryIds loc mode) timeline))"
  using assms
proof (induction timeline)
  case Nil
  then show ?case by simp
next
  case (Cons entry timeline)
  have "set (entryIds loc mode entry) \<inter> set (entryIds loc mode other) = {}"
    if "other \<in> set timeline" for other
  proof -
    from Cons.prems that have "entry_afterIndex entry \<noteq> entry_afterIndex other"
      by auto
    then show ?thesis
      using entryIds_form [of _ loc mode entry] entryIds_form [of _ loc mode other] timelineId_inject
      by (metis disjoint_iff)
  qed
  with Cons show ?case
    by (auto simp: distinct_entryIds)
qed

lemma distinct_collectTimelineChanges:
  assumes "distinct (map entry_afterIndex (nullish (job_timeline job) []))"
  shows "distinct (map change_id (collectTimelineChanges loc job))"
proof (cases "job_timeline job")
  case None
  then show ?thesis
    by (simp add: collectTimelineChanges_def)
next
  case (Some timeline)
  with assms have "distinct (map entry_afterIndex timeline)"
    by (simp add: nullish_def)
  then have "distinct (concat (map (entryIds loc (nullish (job_comparisonMode job) Baseline)) timeline))"
    by (rule distinct_timeline_ids)
  with Some show ?thesis
    by (simp add: collectTimelineChanges_def map_concat comp_def entryIds_def [abs_def])
qed

subsection \<open>Ids of the fallback path\<close>

lemma regionIds_Nil [simp]: "regionIds pfx k [] = []"
  by (simp add: regionIds_def)

lemma regionIds_Cons:
  "regionIds pfx k (r # rs) = strOr (region_id r) (pfx @ showNat k) # regionIds pfx (Suc k) rs"
  by (simp add: regionIds_def)

lemma suppliedRegionIds_Nil [simp]: "suppliedRegionIds [] = []"
  by (simp add: suppliedRegionIds_def map_filter_simps)

lemma suppliedRegionIds_Cons:
  "suppliedRegionIds (r # rs)
     = (case region_id r of
          None \<Rightarrow> suppliedRegionIds rs
        | Some s \<Rightarrow> if s = [] then suppliedRegionIds rs else s # suppliedRegionIds rs)"
  by (simp add: suppliedRegionIds_def map_filter_simps split: option.splits)

lemma regionIds_members:
  "set (regionIds pfx k rs) \<subseteq> set (suppliedRegionIds rs) \<union> {pfx @ showNat i | i. k \<le> i}"
proof (induction rs arbitrary: k)
  case Nil
  then show ?case by simp
next
  case (Cons r rs)
  have "set (suppliedRegionIds rs) \<subseteq> set (suppliedRegionIds (r # rs))"
    by (auto simp: suppliedRegionIds_Cons split: option.splits)
  moreover have "{pfx @ showNat i | i. Suc k \<le> i} \<subseteq> {pfx @ showNat i | i. k \<le> i}"
    using Suc_leD by blast
  ultimately
  have "set (regionIds pfx (Suc k) rs) \<subseteq> set (suppliedRegionIds (r # rs)) \<union> {pfx @ showNat i | i. k \<le> i}"
    using Cons.IH [of "Suc k"] by blast
  moreover have "strOr (region_id r) (pfx @ showNat k)
      \<in> set (suppliedRegionIds (r # rs)) \<union> {pfx @ showNat i | i. k \<le> i}"
  proof (cases "\<exists>s. region_id r = Some s \<and> s \<noteq> []")
    case True
    then show ?thesis
      by (auto simp: suppliedRegionIds_Cons strOr_def)
  next
    case False
    then have "strOr (region_id r) (pfx @ showNat k) = pfx @ showNat k"
      by (auto simp: strOr_def split: option.splits)
    then show ?thesis
      by auto
  qed
  ultimately show ?case
    by (simp add: regionIds_Cons)
qed

lemma regionIds_supplied_or_generated:
  "set (regionIds pfx k rs) \<subseteq> set (suppliedRegionIds rs) \<union> {x. prefix pfx x}"
  using regionIds_members [of pfx k rs] by auto

lemma distinct_regionIds:
  assumes "distinct (suppliedRegionIds rs)" and "\<forall>s \<in> set (suppliedRegionIds rs). \<not> prefix pfx s"
  shows "distinct (regionIds pfx k rs)"
  using assms
proof (induction rs arbitrary: k)
  case Nil
  then show ?case by simp
next
  case (Cons r rs)
  let ?head = "strOr (region_id r) (pfx @ showNat k)"
  from Cons.prems have rest: "distinct (suppliedRegionIds rs)"
      "\<forall>s \<in> set (suppliedRegionIds rs). \<not> prefix pfx s"
    by (auto simp: suppliedRegionIds_Cons split: option.splits if_splits)
  then have tail: "distinct (regionIds pfx (Suc k) rs)"
    by (rule Cons.IH)
  have members: "set (regionIds pfx (Suc k) rs)
      \<subseteq> set (suppliedRegionIds rs) \<union> {pfx @ showNat i | i. Suc k \<le> i}"
    by (rule regionIds_members)
  have "?head \<notin> set (regionIds pfx (Suc k) rs)"
  proof (cases "\<exists>s. region_id r = Some s \<and> s \<noteq> []")
    case True
    then obtain s where s: "region_id r = Some s" "s \<noteq> []"
      by blast
    then have head: "?head = s"
      by (simp add: strOr_def)
    from s Cons.prems have "s \<notin> set (suppliedRegionIds rs)" and "\<not> prefix pfx s"
      by (auto simp: suppliedRegionIds_Cons)
    with members show ?thesis
      unfolding head by auto
  next
    case False
    then have head: "?head = pfx @ showNat k"
      by (auto simp: strOr_def split: option.splits)
    have "pfx @ showNat k \<notin> set (suppliedRegionIds rs)"
      using rest(2) by auto
    moreover have "pfx @ showNat k \<notin> {pfx @ showNat i | i. Suc k \<le> i}"
      by (auto simp: showNat_inject)
    ultimately show ?thesis
      unfolding head using members by blast
  qed
  with tail show ?case
    by (simp add: regionIds_Cons)
qed

lemma ids_createPcbChanges:
  "map change_id (createPcbChanges loc regions sz) = regionIds ''pcb-'' 0 regions"
  by (simp add: createPcbChanges_def mapIndexed_def regionIds_def pcbChange_def Let_def split_def)

lemma ids_createYoloChanges:
  "map change_id (createYoloChanges pairs sz) = map (\<lambda>i. ''component-'' @ showNat i) [0 ..< length pairs]"
  by (rule nth_equalityI) (simp_all add: createYoloChanges_def nth_mapIndexed yoloChange_def Let_def)

lemma ids_createMaskChanges:
  "map change_id (createMaskChanges dets sz)
     = map (\<lambda>i. ''mask-'' @ showNat i) [0 ..< length (filter keepsDetection dets)]"
  by (rule nth_equalityI) (simp_all add: createMaskChanges_def nth_mapIndexed maskChange_def Let_def)

lemma ids_createChangeformerChanges:
  "map change_id (createChangeformerChanges summaryOpt sz) = [''changeformer-aggregate'']
   \<or> map change_id (createChangeformerChanges summaryOpt sz)
       = regionIds ''changeformer-'' 0 (nullish (Option.bind summaryOpt summary_regions) [])"
proof (cases summaryOpt)
  case None
  then show ?thesis
    by (simp add: createChangeformerChanges_def nullish_def)
next
  case (Some summary)
  show ?thesis
  proof (cases "nullish (summary_regions summary) [] = []")
    case True
    with Some show ?thesis
      by (auto simp: createChangeformerChanges_def Let_def aggregateChange_def)
  next
    case False
    with Some show ?thesis
      by (simp add: createChangeformerChanges_def Let_def mapIndexed_def regionIds_def
          changeformerRegionChange_def split_def)
  qed
qed

lemma distinct_generated: "distinct (map (\<lambda>i. pfx @ showNat i) [0 ..< n])"
proof -
  have "inj_on (\<lambda>i. pfx @ showNat i) (set [0 ..< n])"
    by (rule inj_onI) (simp add: showNat_inject)
  then show ?thesis
    by (simp add: distinct_map)
qed

lemma distinct_fallbackChanges:
  assumes "distinct (suppliedIds job)" and "\<forall>s \<in> set (suppliedIds job). \<not> reservedId s"
  shows "distinct (map change_id (fallbackChanges loc job))"
proof -
  let ?p = "jobPipeline job"
  let ?P = "map change_id (createPcbChanges loc (pcbRegionsOf ?p) (Option.bind (pcb_cd ?p) pcb_imageSize))"
  let ?Y = "map change_id (createYoloChanges (yoloPairsOf ?p) (Option.bind (object_diff ?p) od_imageSize))"
  let ?M = "map change_id (createMaskChanges (maskDetectionsOf ?p) (Option.bind (mask_rcnn ?p) mask_imageSize))"
  let ?C = "map change_id (createChangeformerChanges (changeformerSummaryOf ?p)
      (Option.bind (changeformer_cd ?p) cf_imageSize))"
  let ?S1 = "set (suppliedRegionIds (pcbRegionsOf ?p))"
  let ?S2 = "set (suppliedRegionIds (changeformerRegionsOf ?p))"
  from assms have supplied: "distinct (suppliedRegionIds (pcbRegionsOf ?p))"
      "distinct (suppliedRegionIds (changeformerRegionsOf ?p))" "?S1 \<inter> ?S2 = {}"
    and free: "\<forall>s \<in> ?S1 \<union> ?S2. \<not> reservedId s"
    by (simp_all add: suppliedIds_def)
  have P: "?P = regionIds ''pcb-'' 0 (pcbRegionsOf ?p)"
    by (rule ids_createPcbChanges)
  have dP: "distinct ?P"
    unfolding P using supplied(1) free by (intro distinct_regionIds) (auto simp: reservedId_def)
  have sP: "set ?P \<subseteq> ?S1 \<union> {x. prefix ''pcb-'' x}"
    unfolding P by (rule regionIds_supplied_or_generated)
  have dY: "distinct ?Y"
    unfolding ids_createYoloChanges by (rule distinct_generated)
  have sY: "set ?Y \<subseteq> {x. prefix ''component-'' x}"
    unfolding ids_createYoloChanges by auto
  have dM: "distinct ?M"
    unfolding ids_createMaskChanges by (rule distinct_generated)
  have sM: "set ?M \<subseteq> {x. prefix ''mask-'' x}"
    unfolding ids_createMaskChanges by auto
  have C: "?C = [''changeformer-aggregate''] \<or> ?C = regionIds ''changeformer-'' 0 (changeformerRegionsOf ?p)"
    unfolding changeformerRegionsOf_def by (rule ids_createChangeformerChanges)
  have dC: "distinct ?C"
    using C
  proof
    assume "?C = [''changeformer-aggregate'']"
    then show ?thesis by simp
  next
    assume c: "?C = regionIds ''changeformer-'' 0 (changeformerRegionsOf ?p)"
    show ?thesis
      unfolding c using supplied(2) free by (intro distinct_regionIds) (auto simp: reservedId_def)
  qed
  have sC: "set ?C \<subseteq> ?S2 \<union> {x. prefix ''changeformer-'' x}"
    using C
  proof
    assume "?C = [''changeformer-aggregate'']"
    then show ?thesis by simp
  next
    assume c: "?C = regionIds ''changeformer-'' 0 (changeformerRegionsOf ?p)"
    show ?thesis
      unfolding c by (rule regionIds_supplied_or_generated)
  qed
  have apart: "\<not> (prefix ''pcb-'' x \<and> prefix ''component-'' x)" "\<not> (prefix ''pcb-'' x \<and> prefix ''mask-'' x)"
    "\<not> (prefix ''pcb-'' x \<and> prefix ''changeformer-'' x)" "\<not> (prefix ''component-'' x \<and> prefix ''mask-'' x)"
    "\<not> (prefix ''component-'' x \<and> prefix ''changeformer-'' x)"
    "\<not> (prefix ''mask-'' x \<and> prefix ''changeformer-'' x)" for x :: string
    by (auto simp: prefix_def)
  have PY: "set ?P \<inter> set ?Y = {}"
    using sP sY free apart(1) unfolding reservedId_def by blast
  have PM: "set ?P \<inter> set ?M = {}"
    using sP sM free apart(2) unfolding reservedId_def by blast
  have PC: "set ?P \<inter> set ?C = {}"
    using sP sC free apart(3) supplied(3) unfolding reservedId_def by blast
  have YM: "set ?Y \<inter> set ?M = {}"
    using sY sM apart(4) by blast
  have YC: "set ?Y \<inter> set ?C = {}"
    using sY sC free apart(5) unfolding reservedId_def by blast
  have MC: "set ?M \<inter> set ?C = {}"
    using sM sC free apart(6) unfolding reservedId_def by blast
  have "distinct (?P @ ?Y @ ?M @ ?C)"
    using dP dY dM dC PY PM PC YM YC MC by (simp add: Int_Un_distrib Int_Un_distrib2)
  then show ?thesis
    by (simp add: fallbackChanges_def Let_def)
qed

subsection \<open>The assembled result\<close>

text \<open>
  C1 (as amended). The ids of the changes of an assembled result are pairwise distinct (as
  many distinct ids as changes) under the condition of the path that produced them. On the
  timeline path: no two timeline entries share their \<open>afterIndex\<close>, the key the re-keyed ids
  are built from. On the fallback path: the ids the detectors supply for the job-level regions
  are pairwise distinct and none of them starts like a locally generated id (\<open>pcb-\<close>,
  \<open>component-\<close>, \<open>mask-\<close>, \<open>changeformer-\<close>).
\<close>

theorem change_ids_distinct:
  assumes "(collectTimelineChanges loc job \<noteq> []
              \<and> distinct (map entry_afterIndex (nullish (job_timeline job) [])))
         \<or> (collectTimelineChanges loc job = []
              \<and> distinct (suppliedIds job) \<and> (\<forall>s \<in> set (suppliedIds job). \<not> reservedId s))"
  shows "distinct (map change_id (result_changes (assembleAnalysisResult loc job domain)))
       \<and> card (change_id ` set (result_changes (assembleAnalysisResult loc job domain)))
           = length (result_changes (assembleAnalysisResult loc job domain))"
proof -
  have "distinct (map change_id (result_changes (assembleAnalysisResult loc job domain)))"
    using assms
  proof
    assume "collectTimelineChanges loc job \<noteq> []
        \<and> distinct (map entry_afterIndex (nullish (job_timeline job) []))"
    then show ?thesis
      using distinct_collectTimelineChanges [of job loc]
      by (simp add: assembleAnalysisResult_def Let_def)
  next
    assume "collectTimelineChanges loc job = []
        \<and> distinct (suppliedIds job) \<and> (\<forall>s \<in> set (suppliedIds job). \<not> reservedId s)"
    then show ?thesis
      using distinct_fallbackChanges [of job loc]
      by (simp add: assembleAnalysisResult_def Let_def)
  qed
  moreover from this
  have "card (change_id ` set (result_changes (assembleAnalysisResult loc job domain)))
      = length (result_changes (assembleAnalysisResult loc job domain))"
    using distinct_card [of "map change_id (result_changes (assembleAnalysisResult loc job domain))"]
    by simp
  ultimately show ?thesis by blast
qed

text \<open>
  A consecutive timeline of two entries, and a job-level pipeline whose regions carry the
  ids \<open>r1\<close> and \<open>r2\<close> beside one region without id.
\<close>

theorem change_ids_distinct_witness:
  "distinct (map change_id (result_changes (assembleAnalysisResult showNat
      (scenarioA [noPair\<lparr>pair_changed := Some False\<rparr>] [noPair\<lparr>pair_changed := Some True\<rparr>]) F1)))
   \<and> distinct (map change_id (result_changes (assembleAnalysisResult showNat
      (noJob\<lparr>job_pipeline := Some (regionStages [noRegion\<lparr>region_id := Some ''r1''\<rparr>, noRegion]
                                                [noRegion\<lparr>region_id := Some ''r2''\<rparr>])\<rparr>) F1)))"
proof -
  let ?t = "scenarioA [noPair\<lparr>pair_changed := Some False\<rparr>] [noPair\<lparr>pair_changed := Some True\<rparr>]"
  let ?f = "noJob\<lparr>job_pipeline := Some (regionStages [noRegion\<lparr>region_id := Some ''r1''\<rparr>, noRegion]
                                                [noRegion\<lparr>region_id := Some ''r2''\<rparr>])\<rparr>"
  have "collectTimelineChanges showNat ?t \<noteq> []"
    by code_simp
  moreover have "distinct (map entry_afterIndex (nullish (job_timeline ?t) []))"
    by code_simp
  ultimately have timeline: "(collectTimelineChanges showNat ?t \<noteq> []
              \<and> distinct (map entry_afterIndex (nullish (job_timeline ?t) [])))
         \<or> (collectTimelineChanges showNat ?t = []
              \<and> distinct (suppliedIds ?t) \<and> (\<forall>s \<in> set (suppliedIds ?t). \<not> reservedId s))"
    by blast
  have "collectTimelineChanges showNat ?f = []"
    by code_simp
  moreover have supplied: "suppliedIds ?f = [''r1'', ''r2'']"
    by code_simp
  moreover have "\<forall>s \<in> set (suppliedIds ?f). \<not> reservedId s"
    unfolding supplied by (simp add: reservedId_def)
  moreover have "distinct (suppliedIds ?f)"
    unfolding supplied by simp
  ultimately have fallback: "(collectTimelineChanges showNat ?f \<noteq> []
              \<and> distinct (map entry_afterIndex (nullish (job_timeline ?f) [])))
         \<or> (collectTimelineChanges showNat ?f = []
              \<and> distinct (suppliedIds ?f) \<and> (\<forall>s \<in> set (suppliedIds ?f). \<not> reservedId s))"
    by blast
  from change_ids_distinct [OF timeline, where domain = F1]
    change_ids_distinct [OF fallback, where domain = F1]
  show ?thesis by blast
qed

text \<open>
  C1 as stated holds for every assembled result. On the fallback path the ids of the
  detectors are taken as they come: when the defect-region stage and the structural-drift
  stage both call their first region \<open>region-0\<close>, the result carries that id twice.
\<close>

theorem change_ids_duplicate_counterexample:
  "\<not> distinct (map change_id (result_changes (assembleAnalysisResult showNat
      (noJob\<lparr>job_pipeline := Some (regionStages [noRegion\<lparr>region_id := Some ''region-0''\<rparr>]
                                                [noRegion\<lparr>region_id := Some ''region-0''\<rparr>])\<rparr>) F1)))"
  by code_simp

end
